theory Spec2Isabelle
  imports Complex_Main "HOL-Library.Log_Nat"
begin

section \<open>Go's float64\<close>

text \<open>
  A float64 is an IEEE-754 binary64 value: a finite number (sign bit and magnitude, so
  that the two zeros differ), an infinity, or NaN. The magnitude of a finite value is a
  rational that binary64 represents exactly. The four arithmetic operations round the
  exact result to the nearest representable value, ties to even, as the Go language
  specification prescribes. \<open>math.Pow\<close> is not a correctly rounded function, so it
  is not defined here: every function of the program that calls it takes it as the
  parameter \<open>pow\<close>.
\<close>

datatype float64 = Fin bool rat | Inf bool | NaN

definition floor_log2 :: "rat \<Rightarrow> int" where
  "floor_log2 q =
     (let (a, b) = quotient_of q;
          e0 = int (floorlog 2 (nat a)) - int (floorlog 2 (nat b))
      in if 2 powi e0 \<le> q then e0 else e0 - 1)"

definition round_half_even :: "rat \<Rightarrow> int" where
  "round_half_even x =
     (let f = \<lfloor>x\<rfloor>; d = x - of_int f
      in if d < 1/2 then f else if 1/2 < d then f + 1 else if even f then f else f + 1)"

text \<open>
  \<open>round_float64 neg q\<close> is the binary64 nearest to the positive magnitude \<open>q\<close>
  with sign \<open>neg\<close>: 53 significant bits, the exponent no smaller than that of the
  subnormals, overflow to infinity.
\<close>

definition round_float64 :: "bool \<Rightarrow> rat \<Rightarrow> float64" where
  "round_float64 neg q =
     (if q = 0 then Fin neg 0
      else
        let e = max (floor_log2 q) (- 1022);
            ulp = 2 powi (e - 52);
            r = of_int (round_half_even (q / ulp)) * ulp
        in if 2 powi 1024 \<le> r then Inf neg else Fin neg r)"

definition signed :: "bool \<Rightarrow> rat \<Rightarrow> rat" where
  "signed neg q = (if neg then - q else q)"

fun fneg :: "float64 \<Rightarrow> float64" where
  "fneg (Fin a x) = Fin (\<not> a) x"
| "fneg (Inf a) = Inf (\<not> a)"
| "fneg NaN = NaN"

fun fadd :: "float64 \<Rightarrow> float64 \<Rightarrow> float64" where
  "fadd NaN y = NaN"
| "fadd x NaN = NaN"
| "fadd (Inf a) (Inf b) = (if a = b then Inf a else NaN)"
| "fadd (Inf a) (Fin b y) = Inf a"
| "fadd (Fin a x) (Inf b) = Inf b"
| "fadd (Fin a x) (Fin b y) =
     (let s = signed a x + signed b y
      in if s = 0 then Fin (a \<and> b) 0 else round_float64 (s < 0) \<bar>s\<bar>)"

definition fsub :: "float64 \<Rightarrow> float64 \<Rightarrow> float64" where
  "fsub x y = fadd x (fneg y)"

fun fmul :: "float64 \<Rightarrow> float64 \<Rightarrow> float64" where
  "fmul NaN y = NaN"
| "fmul x NaN = NaN"
| "fmul (Inf a) (Inf b) = Inf (a \<noteq> b)"
| "fmul (Inf a) (Fin b y) = (if y = 0 then NaN else Inf (a \<noteq> b))"
| "fmul (Fin a x) (Inf b) = (if x = 0 then NaN else Inf (a \<noteq> b))"
| "fmul (Fin a x) (Fin b y) = round_float64 (a \<noteq> b) (x * y)"

fun fquo :: "float64 \<Rightarrow> float64 \<Rightarrow> float64" where
  "fquo NaN y = NaN"
| "fquo x NaN = NaN"
| "fquo (Inf a) (Inf b) = NaN"
| "fquo (Inf a) (Fin b y) = Inf (a \<noteq> b)"
| "fquo (Fin a x) (Inf b) = Fin (a \<noteq> b) 0"
| "fquo (Fin a x) (Fin b y) =
     (if y = 0 then (if x = 0 then NaN else Inf (a \<noteq> b))
      else round_float64 (a \<noteq> b) (x / y))"

text \<open>A decimal constant of the source, converted to float64 as the compiler does.\<close>

definition float64_const :: "rat \<Rightarrow> float64" where
  "float64_const q = round_float64 (q < 0) \<bar>q\<bar>"

section \<open>strconv.ParseInt and strconv.ParseFloat\<close>

datatype NumError = ErrSyntax | ErrRange

definition isDigit :: "char \<Rightarrow> bool" where
  "isDigit c = (c \<in> set ''0123456789'')"

definition digitVal :: "char \<Rightarrow> nat" where
  "digitVal c = of_char c - 48"

definition decimal :: "string \<Rightarrow> nat" where
  "decimal s = foldl (\<lambda>n c. 10 * n + digitVal c) 0 s"

text \<open>
  \<open>strconv.ParseUint(s, 10, 64)\<close>: the empty string and a string with a byte that
  is not a decimal digit are syntax errors (value 0); a value of \<open>2^64\<close> or more is
  a range error (value \<open>2^64 - 1\<close>).
\<close>

definition ParseUint :: "string \<Rightarrow> int \<times> NumError option" where
  "ParseUint s =
     (if s = [] \<or> \<not> list_all isDigit s then (0, Some ErrSyntax)
      else if 2 ^ 64 \<le> decimal s then (2 ^ 64 - 1, Some ErrRange)
      else (int (decimal s), None))"

text \<open>
  \<open>strconv.ParseInt(s, 10, 64)\<close>: an optional sign, then \<open>ParseUint\<close>; a syntax
  error returns 0, a value outside int64 returns the nearest bound with a range error.
\<close>

definition ParseInt :: "string \<Rightarrow> int \<times> NumError option" where
  "ParseInt s =
     (if s = [] then (0, Some ErrSyntax)
      else
        let neg = (hd s = CHR ''-'');
            u = (if hd s = CHR ''+'' \<or> hd s = CHR ''-'' then tl s else s);
            (un, err) = ParseUint u
        in if err = Some ErrSyntax then (0, Some ErrSyntax)
           else if \<not> neg \<and> 2 ^ 63 \<le> un then (2 ^ 63 - 1, Some ErrRange)
           else if neg \<and> 2 ^ 63 < un then (- (2 ^ 63), Some ErrRange)
           else (if neg then - un else un, None))"

text \<open>
  \<open>strconv.ParseFloat(s, 64)\<close> on the strings the program passes to it: bytes among
  the digits, \<open>.\<close> and the signs (lemma \<open>FindAllStringSubmatch_alphabet\<close> below:
  a captured group holds nothing else, so exponents, hexadecimal mantissas,
  underscores, \<open>inf\<close> and \<open>nan\<close> cannot occur and are not modelled). An optional
  sign, digits with at most one point and at least one digit; anything left over is a
  syntax error, and the value returned with it is 0. The value of a well-formed string
  is the nearest float64; when that is an infinity the error is a range error.
\<close>

definition ParseFloat :: "string \<Rightarrow> float64 \<times> NumError option" where
  "ParseFloat s =
     (let neg = (s \<noteq> [] \<and> hd s = CHR ''-'');
          u = (if s \<noteq> [] \<and> (hd s = CHR ''+'' \<or> hd s = CHR ''-'') then tl s else s);
          ip = takeWhile isDigit u;
          r = dropWhile isDigit u;
          point = (r \<noteq> [] \<and> hd r = CHR ''.'');
          fp = (if point then takeWhile isDigit (tl r) else []);
          rest = (if point then dropWhile isDigit (tl r) else r)
      in if ip @ fp = [] \<or> rest \<noteq> [] then (Fin False 0, Some ErrSyntax)
         else
           let f = round_float64 neg (of_nat (decimal (ip @ fp)) / 10 ^ length fp)
           in (f, case f of Inf _ \<Rightarrow> Some ErrRange | _ \<Rightarrow> None))"

section \<open>The telemetry pattern\<close>

text \<open>
  The pattern of the reader, \<^verbatim>\<open>CO2=(\d+),HUM=([0-9\.]+),TMP=([0-9\.-]+)\<close>, is a
  sequence of literals and capturing groups; each group is one or more bytes of a class,
  repeated greedily. \<open>rx_match\<close> is the backtracking (leftmost-first) matcher of
  package regexp on that fragment, anchored at the start of the text: a group first
  tries the longest run of its class and gives bytes back one at a time. It returns the
  groups and the text after the match.
\<close>

datatype rx = Lit string | Group string

fun first_some :: "'a option list \<Rightarrow> 'a option" where
  "first_some [] = None"
| "first_some (Some x # xs) = Some x"
| "first_some (None # xs) = first_some xs"

fun countdown :: "nat \<Rightarrow> nat list" where
  "countdown 0 = []"
| "countdown (Suc n) = Suc n # countdown n"

fun rx_match :: "rx list \<Rightarrow> string \<Rightarrow> (string list \<times> string) option" where
  "rx_match [] s = Some ([], s)"
| "rx_match (Lit l # rs) s =
     (if take (length l) s = l then rx_match rs (drop (length l) s) else None)"
| "rx_match (Group cls # rs) s =
     first_some
       (map (\<lambda>k. case rx_match rs (drop k s) of
                    None \<Rightarrow> None
                  | Some (gs, rest) \<Rightarrow> Some (take k s # gs, rest))
            (countdown (length (takeWhile (\<lambda>c. c \<in> set cls) s))))"

definition re :: "rx list" where
  "re = [Lit ''CO2='', Group ''0123456789'',
         Lit '',HUM='', Group ''0123456789.'',
         Lit '',TMP='', Group ''0123456789.-'']"

text \<open>
  A match at the start of the text: the submatch slice (the whole match first, then the
  three groups) and the text after it.
\<close>

definition matchHere :: "string \<Rightarrow> (string list \<times> string) option" where
  "matchHere s =
     (case rx_match re s of
        None \<Rightarrow> None
      | Some (gs, rest) \<Rightarrow> Some (take (length s - length rest) s # gs, rest))"

fun minlen :: "rx list \<Rightarrow> nat" where
  "minlen [] = 0"
| "minlen (Lit l # rs) = length l + minlen rs"
| "minlen (Group cls # rs) = 1 + minlen rs"

lemma first_some_SomeD:
  "first_some xs = Some y \<Longrightarrow> Some y \<in> set xs"
  by (induction xs rule: first_some.induct) auto

lemma countdown_set: "set (countdown n) = {1..n}"
  by (induction n) auto

lemma rx_match_length:
  "rx_match rs s = Some (gs, rest) \<Longrightarrow> length rest + minlen rs \<le> length s"
proof (induction rs arbitrary: s gs rest)
  case Nil
  then show ?case by simp
next
  case (Cons r rs)
  show ?case
  proof (cases r)
    case (Lit l)
    with Cons.prems have t: "take (length l) s = l"
      and m: "rx_match rs (drop (length l) s) = Some (gs, rest)"
      by (auto split: if_splits)
    from arg_cong [OF t, of length] have "length l \<le> length s"
      by simp
    with Cons.IH [OF m] Lit show ?thesis by simp
  next
    case (Group cls)
    with Cons.prems obtain k where k: "1 \<le> k" "k \<le> length (takeWhile (\<lambda>c. c \<in> set cls) s)"
      and m: "(case rx_match rs (drop k s) of None \<Rightarrow> None
               | Some (gs', rest') \<Rightarrow> Some (take k s # gs', rest')) = Some (gs, rest)"
      by (auto dest!: first_some_SomeD simp: countdown_set)
    from m obtain gs' where m': "rx_match rs (drop k s) = Some (gs', rest)"
      by (auto split: option.splits)
    have "k \<le> length s"
      using k(2) length_takeWhile_le [of "\<lambda>c. c \<in> set cls" s] by linarith
    with Cons.IH [OF m'] k Group show ?thesis by simp
  qed
qed

lemma matchHere_shorter:
  "matchHere s = Some (m, rest) \<Longrightarrow> length rest < length s"
proof -
  assume "matchHere s = Some (m, rest)"
  then obtain gs where "rx_match re s = Some (gs, rest)"
    by (auto simp: matchHere_def split: option.splits)
  from rx_match_length [OF this] show ?thesis
    by (simp add: re_def)
qed

text \<open>
  \<open>re.FindAllStringSubmatch(text, -1)\<close>: the successive non-overlapping matches,
  each the leftmost one in what is left of the text, as submatch slices.
\<close>

function FindAllStringSubmatch :: "string \<Rightarrow> string list list" where
  "FindAllStringSubmatch s =
     (if s = [] then []
      else case matchHere s of
             Some (m, rest) \<Rightarrow> m # FindAllStringSubmatch rest
           | None \<Rightarrow> FindAllStringSubmatch (tl s))"
  by pat_completeness auto
termination
  by (relation "measure length") (auto simp: matchHere_shorter)

declare FindAllStringSubmatch.simps [simp del]

section \<open>The reading and its compensation\<close>

text \<open>
  A \<open>time.Time\<close>, by what its accessors \<open>Date\<close>, \<open>Clock\<close>, \<open>Nanosecond\<close> and
  \<open>Zone\<close> return: the civil date and time of the instant in the time's location, and
  the offset of that location from UTC in seconds.
\<close>

record time =
  Year :: int
  Month :: nat
  Day :: nat
  Hour :: nat
  Minute :: nat
  Second :: nat
  Nanosecond :: nat
  Offset :: int

record Data =
  CO2 :: int
  Humidity :: float64
  Temperature :: float64
  Timestamp :: time

type_synonym pow = "float64 \<Rightarrow> float64 \<Rightarrow> float64"

definition correctTemperature :: "float64 \<Rightarrow> float64" where
  "correctTemperature t = fsub t (float64_const (45 / 10))"

definition correctHumidity :: "pow \<Rightarrow> float64 \<Rightarrow> float64 \<Rightarrow> float64" where
  "correctHumidity pow h t =
     (let t1 = correctTemperature t
      in fquo
           (fmul h
              (pow (float64_const 10)
                 (fquo (fmul (float64_const (75 / 10)) t) (fadd t (float64_const (2373 / 10))))))
           (pow (float64_const 10)
              (fquo (fmul (float64_const (75 / 10)) t1) (fadd t1 (float64_const (2373 / 10))))))"

section \<open>One line of the stream\<close>

text \<open>
  The body of the scan loop of \<open>run\<close> after the cancellation check, for the line
  \<open>text\<close> read at time \<open>now\<close>: what it does to the shared variable \<open>latest\<close>
  and to the loop. The errors of the three parse calls are discarded, as in the source
  (\<open>co2, _ := strconv.ParseInt(...)\<close>). \<open>text[:6]\<close> panics on a line of fewer than
  six bytes.
\<close>

datatype decoded =
    Reading Data
  | StopAcknowledged
  | NotAFrame string
  | SlicePanic

definition decode :: "pow \<Rightarrow> time \<Rightarrow> string \<Rightarrow> decoded" where
  "decode pow now text =
     (case FindAllStringSubmatch text of
        m # ms \<Rightarrow>
          let co2 = fst (ParseInt (m ! 1));
              h = fst (ParseFloat (m ! 2));
              t = fst (ParseFloat (m ! 3))
          in Reading \<lparr>CO2 = co2, Humidity = correctHumidity pow h t,
                Temperature = correctTemperature t, Timestamp = now\<rparr>
      | [] \<Rightarrow>
          if length text < 6 then SlicePanic
          else if take 6 text = ''OK STP'' then StopAcknowledged
          else NotAFrame (''Read unmatched string: '' @ text))"

section \<open>The serial port, the scanner and the log\<close>

text \<open>
  The environment of the reader goroutine. An \<open>event\<close> is one line the scanner
  delivers (\<open>bufio.ScanLines\<close>: without its line terminator), with what the program
  observes right after it: whether \<open>ctx.Done()\<close> is closed, and what \<open>time.Now()\<close>
  returns. \<open>pending\<close> are the events still to come; when they are used up
  \<open>s.Scan()\<close> returns false, with the error \<open>s.Err()\<close> when \<open>failing\<close> (a read
  error) and without one at the end of the stream. \<open>writeOK\<close> are the outcomes of
  the coming calls of \<open>port.Write\<close> (past the end of the list a write succeeds).
  \<open>effects\<close> is what the goroutine has done so far, oldest first. The two
  \<open>time.Sleep\<close> calls have no effect in this model.
\<close>

record event =
  ev_done :: bool
  ev_now :: time
  ev_text :: string

datatype effect =
    Written string
  | WriteFailed string
  | Scanned string
  | ScanFalse
  | Closed
  | Logged string

record env =
  pending :: "event list"
  failing :: bool
  scanErr :: bool
  writeOK :: "bool list"
  effects :: "effect list"

definition Write :: "string \<Rightarrow> env \<Rightarrow> bool \<times> env" where
  "Write b w =
     (case writeOK w of
        [] \<Rightarrow> (True, w\<lparr>effects := effects w @ [Written b]\<rparr>)
      | ok # oks \<Rightarrow>
          (ok, w\<lparr>writeOK := oks,
                 effects := effects w @ [if ok then Written b else WriteFailed b]\<rparr>))"

definition Scan :: "env \<Rightarrow> event option \<times> env" where
  "Scan w =
     (case pending w of
        [] \<Rightarrow> (None, w\<lparr>scanErr := failing w, effects := effects w @ [ScanFalse]\<rparr>)
      | e # es \<Rightarrow> (Some e, w\<lparr>pending := es, effects := effects w @ [Scanned (ev_text e)]\<rparr>))"

definition Close :: "env \<Rightarrow> env" where
  "Close w = w\<lparr>effects := effects w @ [Closed]\<rparr>"

definition logPrint :: "string \<Rightarrow> env \<Rightarrow> env" where
  "logPrint msg w = w\<lparr>effects := effects w @ [Logged msg]\<rparr>"

definition CRLF :: string where
  "CRLF = [CHR 0x0D, CHR 0x0A]"

datatype error =
    ErrOpen
  | ErrWrite
  | ErrContextCanceled
  | ErrCommandFailed string
  | ErrScanner

datatype result = ReturnedNil | Failed error | Panicked

section \<open>prepareDevice\<close>

text \<open>
  The inner loop of \<open>prepareDevice\<close>, \<open>for s.Scan() { ... }\<close>: it ends when the
  scanner stops, when the context is done, on a line that begins with \<open>OK\<close> or
  \<open>NG\<close>, and with a panic of \<open>t[:2]\<close> on a line of fewer than two bytes.
\<close>

datatype reply = GotOK | GotNG | ScanStopped | CtxDone | ReplyPanic

lemma Scan_pending:
  "Scan w = (Some e, w') \<Longrightarrow> length (pending w') < length (pending w)"
  by (auto simp: Scan_def split: list.splits)

function awaitReply :: "env \<Rightarrow> reply \<times> env" where
  "awaitReply w =
     (case Scan w of
        (None, w') \<Rightarrow> (ScanStopped, w')
      | (Some e, w') \<Rightarrow>
          if ev_done e then (CtxDone, w')
          else if length (ev_text e) < 2 then (ReplyPanic, w')
          else if take 2 (ev_text e) = ''OK'' then (GotOK, w')
          else if take 2 (ev_text e) = ''NG'' then (GotNG, w')
          else awaitReply w')"
  by pat_completeness auto
termination
  by (relation "measure (\<lambda>w. length (pending w))") (auto intro: Scan_pending [OF sym])

declare awaitReply.simps [simp del]

text \<open>
  The outer loop over the commands. When the scanner stops before a reply, the inner
  loop is over and the outer loop goes on to the next command.
\<close>

fun sendCommands :: "string list \<Rightarrow> env \<Rightarrow> result \<times> env" where
  "sendCommands [] w = (ReturnedNil, logPrint '' OK.'' w)"
| "sendCommands (c # cs) w =
     (case Write (c @ CRLF) (logPrint ('' '' @ c) w) of
        (False, w1) \<Rightarrow> (Failed ErrWrite, w1)
      | (True, w1) \<Rightarrow>
          (case awaitReply w1 of
             (CtxDone, w2) \<Rightarrow> (Failed ErrContextCanceled, w2)
           | (GotNG, w2) \<Rightarrow> (Failed (ErrCommandFailed c), w2)
           | (ReplyPanic, w2) \<Rightarrow> (Panicked, w2)
           | (GotOK, w2) \<Rightarrow> sendCommands cs w2
           | (ScanStopped, w2) \<Rightarrow> sendCommands cs w2))"

definition prepareDevice :: "env \<Rightarrow> result \<times> env" where
  "prepareDevice w = sendCommands [''STP'', ''ID?'', ''STA''] (logPrint ''Prepare device...:'' w)"

section \<open>The reader goroutine\<close>

text \<open>
  The scan loop of \<open>run\<close>, from the cancellation check on: \<open>latest\<close> is the shared
  variable the HTTP handler reads.
\<close>

datatype loop_exit = ExitScan | ExitBreak | ExitPanic

function scanLoop :: "pow \<Rightarrow> Data option \<Rightarrow> env \<Rightarrow> loop_exit \<times> Data option \<times> env" where
  "scanLoop pow latest w =
     (case Scan w of
        (None, w') \<Rightarrow> (ExitScan, latest, w')
      | (Some e, w') \<Rightarrow>
          if ev_done e then (ExitBreak, latest, w')
          else
            (case decode pow (ev_now e) (ev_text e) of
               Reading d \<Rightarrow> scanLoop pow (Some d) w'
             | StopAcknowledged \<Rightarrow> (ExitBreak, latest, w')
             | NotAFrame msg \<Rightarrow> scanLoop pow latest (logPrint msg w')
             | SlicePanic \<Rightarrow> (ExitPanic, latest, w')))"
  by pat_completeness auto
termination
  by (relation "measure (\<lambda>(pow, latest, w). length (pending w))")
     (auto intro: Scan_pending [OF sym] simp: logPrint_def)

declare scanLoop.simps [simp del]

text \<open>
  The goroutine from the handshake to its return, then the deferred function, which
  runs on every way out once the port is open (a panic included): it writes
  \<open>STP\<close>, ignores the outcome, and closes the port.
\<close>

definition readerBody :: "pow \<Rightarrow> env \<Rightarrow> result \<times> Data option \<times> env" where
  "readerBody pow w =
     (case prepareDevice w of
        (ReturnedNil, w1) \<Rightarrow>
          (case scanLoop pow None w1 of
             (ExitPanic, latest, w2) \<Rightarrow> (Panicked, latest, w2)
           | (ex, latest, w2) \<Rightarrow>
               if scanErr w2 then (Failed ErrScanner, latest, w2)
               else (ReturnedNil, latest, logPrint ''Reader stopped.'' w2))
      | (r, w1) \<Rightarrow> (r, None, w1))"

definition deferred :: "env \<Rightarrow> env" where
  "deferred w = Close (snd (Write (''STP'' @ CRLF) w))"

definition reader :: "pow \<Rightarrow> bool \<Rightarrow> env \<Rightarrow> result \<times> Data option \<times> env" where
  "reader pow opened w =
     (if \<not> opened then (Failed ErrOpen, None, w)
      else case readerBody pow w of (r, latest, w1) \<Rightarrow> (r, latest, deferred w1))"

section \<open>The timestamp and the HTTP handler\<close>

text \<open>
  \<open>time.Time.Format\<close> for the layout \<^verbatim>\<open>2006-01-02T15:04:05.000Z07:00\<close>: each
  number is zero-padded to its width and longer when it does not fit (a negative year
  with a minus sign); the fraction is the nanoseconds padded to nine digits and cut to
  three; the zone is \<open>Z\<close> when the offset is 0 and else sign, hours and minutes of
  the offset divided by 60 towards zero.
\<close>

function showNat :: "nat \<Rightarrow> string" where
  "showNat n = (if n < 10 then [char_of (48 + n)] else showNat (n div 10) @ [char_of (48 + n mod 10)])"
  by pat_completeness auto
termination
  by (relation "measure id") auto

declare showNat.simps [simp del]

definition appendNat :: "nat \<Rightarrow> nat \<Rightarrow> string" where
  "appendNat n width = replicate (width - length (showNat n)) CHR ''0'' @ showNat n"

definition appendInt :: "int \<Rightarrow> nat \<Rightarrow> string" where
  "appendInt x width = (if x < 0 then CHR ''-'' # appendNat (nat (- x)) width else appendNat (nat x) width)"

definition formatZone :: "int \<Rightarrow> string" where
  "formatZone off =
     (if off = 0 then ''Z''
      else
        let zone = (if off < 0 then - ((- off) div 60) else off div 60)
        in (if zone < 0 then ''-'' else ''+'') @ appendNat (nat \<bar>zone\<bar> div 60) 2 @ '':''
             @ appendNat (nat \<bar>zone\<bar> mod 60) 2)"

definition Format :: "time \<Rightarrow> string" where
  "Format t =
     appendInt (Year t) 4 @ ''-'' @ appendNat (Month t) 2 @ ''-'' @ appendNat (Day t) 2 @ ''T''
     @ appendNat (Hour t) 2 @ '':'' @ appendNat (Minute t) 2 @ '':'' @ appendNat (Second t) 2
     @ ''.'' @ take 3 (appendNat (Nanosecond t) 9) @ formatZone (Offset t)"

text \<open>
  \<open>json.Marshal(latest)\<close>, as the JSON value it encodes (the text of a number is not
  modelled): the fields in the order of the struct, the timestamp through
  \<open>ISO8601Time.MarshalJSON\<close>. A float that is an infinity or NaN is an
  \<open>UnsupportedValueError\<close>; nothing else fails.
\<close>

datatype json = JInt int | JNumber float64 | JString string | JObject "(string \<times> json) list"

fun marshalFloat :: "float64 \<Rightarrow> string + json" where
  "marshalFloat (Fin a x) = Inr (JNumber (Fin a x))"
| "marshalFloat (Inf a) = Inl (''json: unsupported value: '' @ (if a then ''-Inf'' else ''+Inf''))"
| "marshalFloat NaN = Inl ''json: unsupported value: NaN''"

definition MarshalJSON :: "time \<Rightarrow> json" where
  "MarshalJSON t = JString (Format t)"

definition json_Marshal :: "Data \<Rightarrow> string + json" where
  "json_Marshal d =
     (case marshalFloat (Humidity d) of
        Inl err \<Rightarrow> Inl err
      | Inr h \<Rightarrow>
          (case marshalFloat (Temperature d) of
             Inl err \<Rightarrow> Inl err
           | Inr t \<Rightarrow>
               Inr (JObject [(''co2'', JInt (CO2 d)), (''humidity'', h), (''temperature'', t),
                             (''timestamp'', MarshalJSON (Timestamp d))])))"

text \<open>The handler of \<open>/data\<close>, given the value of \<open>latest\<close> it reads.\<close>

datatype body = Text string | Json json

record response =
  status :: nat
  contentType :: string
  content :: body

definition httpError :: "string \<Rightarrow> nat \<Rightarrow> response" where
  "httpError msg code =
     \<lparr>status = code, contentType = ''text/plain; charset=utf-8'', content = Text (msg @ [CHR 0x0A])\<rparr>"

definition handler :: "Data option \<Rightarrow> response" where
  "handler latest =
     (case latest of
        None \<Rightarrow> httpError ''no data'' 503
      | Some d \<Rightarrow>
          (case json_Marshal d of
             Inl err \<Rightarrow> httpError err 500
           | Inr b \<Rightarrow> \<lparr>status = 200, contentType = ''application/json'', content = Json b\<rparr>))"

section \<open>The pattern, matched directly\<close>

lemma first_some_countdown:
  "\<forall>k. 1 \<le> k \<and> k < n \<longrightarrow> f k = None \<Longrightarrow>
   first_some (map f (countdown n)) = (if n = 0 then None else f n)"
proof (induction n)
  case 0
  then show ?case by simp
next
  case (Suc n)
  show ?case
  proof (cases "f (Suc n)")
    case (Some y)
    then show ?thesis by simp
  next
    case None
    have "first_some (map f (countdown n)) = None"
    proof (cases n)
      case 0
      then show ?thesis by simp
    next
      case (Suc m)
      have "first_some (map f (countdown n)) = (if n = 0 then None else f n)"
        using Suc.IH Suc.prems by simp
      moreover have "f n = None" using Suc.prems Suc by simp
      ultimately show ?thesis by simp
    qed
    with None show ?thesis by simp
  qed
qed

lemma take_takeWhile_length:
  "take (length (takeWhile P s)) s = takeWhile P s"
  by (rule takeWhile_eq_take [symmetric])

lemma drop_takeWhile_length:
  "drop (length (takeWhile P s)) s = dropWhile P s"
  by (rule dropWhile_eq_drop [symmetric])

lemma rx_match_Group_Lit:
  assumes "c \<notin> set cls"
  shows "rx_match (Group cls # Lit (c # l) # rs) s =
     (if takeWhile (\<lambda>x. x \<in> set cls) s = [] then None
      else case rx_match (Lit (c # l) # rs) (dropWhile (\<lambda>x. x \<in> set cls) s) of
             None \<Rightarrow> None
           | Some (gs, rest) \<Rightarrow> Some (takeWhile (\<lambda>x. x \<in> set cls) s # gs, rest))"
proof -
  define P where "P = (\<lambda>x. x \<in> set cls)"
  define n where "n = length (takeWhile P s)"
  define f where "f = (\<lambda>k. case rx_match (Lit (c # l) # rs) (drop k s) of
                    None \<Rightarrow> None
                  | Some (gs, rest) \<Rightarrow> Some (take k s # gs, rest))"
  have none: "f k = None" if "1 \<le> k" "k < n" for k
  proof -
    have ks: "k < length s"
      using that(2) length_takeWhile_le [of P s] unfolding n_def by linarith
    have "P (s ! k)"
      using that(2) unfolding n_def by (metis nth_mem set_takeWhileD takeWhile_nth)
    with assms have "s ! k \<noteq> c" by (auto simp: P_def)
    moreover have "drop k s = s ! k # drop (Suc k) s"
      using ks by (simp add: Cons_nth_drop_Suc)
    ultimately show ?thesis by (simp add: f_def)
  qed
  have "rx_match (Group cls # Lit (c # l) # rs) s = first_some (map f (countdown n))"
    unfolding f_def n_def P_def by (simp only: rx_match.simps)
  also have "\<dots> = (if n = 0 then None else f n)"
    using none by (intro first_some_countdown) blast
  also have "\<dots> = (if takeWhile P s = [] then None
      else case rx_match (Lit (c # l) # rs) (dropWhile P s) of
             None \<Rightarrow> None
           | Some (gs, rest) \<Rightarrow> Some (takeWhile P s # gs, rest))"
    unfolding f_def n_def take_takeWhile_length drop_takeWhile_length
    by (simp only: length_0_conv)
  finally show ?thesis unfolding P_def .
qed

lemma rx_match_Group_end:
  "rx_match [Group cls] s =
     (if takeWhile (\<lambda>x. x \<in> set cls) s = [] then None
      else Some ([takeWhile (\<lambda>x. x \<in> set cls) s], dropWhile (\<lambda>x. x \<in> set cls) s))"
proof -
  define P where "P = (\<lambda>x. x \<in> set cls)"
  define n where "n = length (takeWhile P s)"
  define f where "f = (\<lambda>k. case rx_match [] (drop k s) of
                    None \<Rightarrow> None
                  | Some (gs, rest) \<Rightarrow> Some (take k s # gs, rest))"
  have f: "f k = Some ([take k s], drop k s)" for k
    by (simp add: f_def)
  have "rx_match [Group cls] s = first_some (map f (countdown n))"
    unfolding f_def n_def P_def by (simp only: rx_match.simps)
  also have "\<dots> = (if n = 0 then None else f n)"
    by (cases n) (simp_all add: f)
  also have "\<dots> = (if takeWhile P s = [] then None
      else Some ([takeWhile P s], dropWhile P s))"
    unfolding f n_def take_takeWhile_length drop_takeWhile_length
    by (simp only: length_0_conv)
  finally show ?thesis unfolding P_def .
qed

text \<open>The three byte classes of the pattern.\<close>

definition co2Class :: "char \<Rightarrow> bool" where
  "co2Class c = (c \<in> set ''0123456789'')"

definition humClass :: "char \<Rightarrow> bool" where
  "humClass c = (c \<in> set ''0123456789.'')"

definition tmpClass :: "char \<Rightarrow> bool" where
  "tmpClass c = (c \<in> set ''0123456789.-'')"

lemma class_lambda:
  "(\<lambda>x. x \<in> set ''0123456789'') = co2Class"
  "(\<lambda>x. x \<in> set ''0123456789.'') = humClass"
  "(\<lambda>x. x \<in> set ''0123456789.-'') = tmpClass"
  by (simp_all add: co2Class_def humClass_def tmpClass_def fun_eq_iff)

lemma rx_match_Lit4:
  "rx_match (Lit [a, b, c, d] # rs) s =
     (if take 4 s = [a, b, c, d] then rx_match rs (drop 4 s) else None)"
  by (simp add: eval_nat_numeral)

lemma rx_match_Lit5:
  "rx_match (Lit [a, b, c, d, e] # rs) s =
     (if take 5 s = [a, b, c, d, e] then rx_match rs (drop 5 s) else None)"
  by (simp add: eval_nat_numeral)

lemma rx_match_re:
  "rx_match re s =
     (if take 4 s \<noteq> ''CO2='' \<or> takeWhile co2Class (drop 4 s) = [] then None
      else let s2 = dropWhile co2Class (drop 4 s)
      in if take 5 s2 \<noteq> '',HUM='' \<or> takeWhile humClass (drop 5 s2) = [] then None
      else let s4 = dropWhile humClass (drop 5 s2)
      in if take 5 s4 \<noteq> '',TMP='' \<or> takeWhile tmpClass (drop 5 s4) = [] then None
      else Some ([takeWhile co2Class (drop 4 s), takeWhile humClass (drop 5 s2),
                  takeWhile tmpClass (drop 5 s4)],
                 dropWhile tmpClass (drop 5 s4)))"
proof -
  have 1: "rx_match [Group ''0123456789.-''] u =
     (if takeWhile tmpClass u = [] then None
      else Some ([takeWhile tmpClass u], dropWhile tmpClass u))" for u
    unfolding rx_match_Group_end class_lambda ..
  have 2: "rx_match [Lit '',TMP='', Group ''0123456789.-''] u =
     (if take 5 u \<noteq> '',TMP='' \<or> takeWhile tmpClass (drop 5 u) = [] then None
      else Some ([takeWhile tmpClass (drop 5 u)], dropWhile tmpClass (drop 5 u)))" for u
    unfolding rx_match_Lit5 1 by (simp add: Let_def)
  have 3: "rx_match [Group ''0123456789.'', Lit '',TMP='', Group ''0123456789.-''] u =
     (if takeWhile humClass u = [] then None
      else let v = dropWhile humClass u
      in if take 5 v \<noteq> '',TMP='' \<or> takeWhile tmpClass (drop 5 v) = [] then None
      else Some ([takeWhile humClass u, takeWhile tmpClass (drop 5 v)],
                 dropWhile tmpClass (drop 5 v)))" for u
  proof -
    have "CHR '','' \<notin> set ''0123456789.''" by simp
    from rx_match_Group_Lit [OF this, of "''TMP=''" "[Group ''0123456789.-'']" u]
    show ?thesis unfolding 2 class_lambda by (simp add: Let_def)
  qed
  have 4: "rx_match [Lit '',HUM='', Group ''0123456789.'', Lit '',TMP='', Group ''0123456789.-''] u =
     (if take 5 u \<noteq> '',HUM='' \<or> takeWhile humClass (drop 5 u) = [] then None
      else let v = dropWhile humClass (drop 5 u)
      in if take 5 v \<noteq> '',TMP='' \<or> takeWhile tmpClass (drop 5 v) = [] then None
      else Some ([takeWhile humClass (drop 5 u), takeWhile tmpClass (drop 5 v)],
                 dropWhile tmpClass (drop 5 v)))" for u
    unfolding rx_match_Lit5 3 by (simp add: Let_def)
  have 5: "rx_match [Group ''0123456789'', Lit '',HUM='', Group ''0123456789.'', Lit '',TMP='', Group ''0123456789.-''] u =
     (if takeWhile co2Class u = [] then None
      else let s2 = dropWhile co2Class u
      in if take 5 s2 \<noteq> '',HUM='' \<or> takeWhile humClass (drop 5 s2) = [] then None
      else let s4 = dropWhile humClass (drop 5 s2)
      in if take 5 s4 \<noteq> '',TMP='' \<or> takeWhile tmpClass (drop 5 s4) = [] then None
      else Some ([takeWhile co2Class u, takeWhile humClass (drop 5 s2),
                  takeWhile tmpClass (drop 5 s4)],
                 dropWhile tmpClass (drop 5 s4)))" for u
  proof -
    have "CHR '','' \<notin> set ''0123456789''" by simp
    from rx_match_Group_Lit [OF this, of "''HUM=''" "[Group ''0123456789.'', Lit '',TMP='', Group ''0123456789.-'']" u]
    show ?thesis unfolding 4 class_lambda by (simp add: Let_def)
  qed
  show ?thesis
    unfolding re_def rx_match_Lit4 5 by (simp add: Let_def)
qed

lemma matchHere_eq:
  "matchHere s =
     (if take 4 s \<noteq> ''CO2='' \<or> takeWhile co2Class (drop 4 s) = [] then None
      else let s2 = dropWhile co2Class (drop 4 s)
      in if take 5 s2 \<noteq> '',HUM='' \<or> takeWhile humClass (drop 5 s2) = [] then None
      else let s4 = dropWhile humClass (drop 5 s2)
      in if take 5 s4 \<noteq> '',TMP='' \<or> takeWhile tmpClass (drop 5 s4) = [] then None
      else let rest = dropWhile tmpClass (drop 5 s4)
      in Some ([take (length s - length rest) s, takeWhile co2Class (drop 4 s),
                takeWhile humClass (drop 5 s2), takeWhile tmpClass (drop 5 s4)],
               rest))"
  unfolding matchHere_def rx_match_re by (simp add: Let_def)

lemma FindAllStringSubmatch_Nil: "FindAllStringSubmatch [] = []"
  by (simp add: FindAllStringSubmatch.simps)

lemma FindAllStringSubmatch_Cons:
  "FindAllStringSubmatch (c # s) =
     (case matchHere (c # s) of
        Some (m, rest) \<Rightarrow> m # FindAllStringSubmatch rest
      | None \<Rightarrow> FindAllStringSubmatch s)"
  by (subst FindAllStringSubmatch.simps) (simp split: option.split)

lemmas FindAll_eval =
  FindAllStringSubmatch_Nil FindAllStringSubmatch_Cons matchHere_eq
  co2Class_def humClass_def tmpClass_def Let_def

lemmas Parse_eval =
  ParseInt_def ParseUint_def ParseFloat_def isDigit_def decimal_def digitVal_def
  float64_const_def Let_def

lemma FindAllStringSubmatch_head:
  "FindAllStringSubmatch s = m # ms \<Longrightarrow> \<exists>u rest. matchHere u = Some (m, rest)"
proof (induction s)
  case Nil
  then show ?case by (simp add: FindAllStringSubmatch_Nil)
next
  case (Cons c s)
  show ?case
  proof (cases "matchHere (c # s)")
    case None
    with Cons show ?thesis by (simp add: FindAllStringSubmatch_Cons)
  next
    case (Some a)
    obtain m' rest where a: "a = (m', rest)" by (cases a)
    with Some Cons.prems have "m' = m" by (simp add: FindAllStringSubmatch_Cons)
    with Some a show ?thesis by blast
  qed
qed

lemma list_all_takeWhile: "list_all P (takeWhile P xs)"
  by (induction xs) auto

lemma matchHere_groups:
  assumes "matchHere u = Some (m, rest)"
  shows "length m = 4 \<and> m ! 1 \<noteq> [] \<and> list_all co2Class (m ! 1)
         \<and> m ! 2 \<noteq> [] \<and> list_all humClass (m ! 2)
         \<and> m ! 3 \<noteq> [] \<and> list_all tmpClass (m ! 3)"
proof -
  define s2 where "s2 = dropWhile co2Class (drop 4 u)"
  define s4 where "s4 = dropWhile humClass (drop 5 s2)"
  have m: "m = [take (length u - length rest) u, takeWhile co2Class (drop 4 u),
                takeWhile humClass (drop 5 s2), takeWhile tmpClass (drop 5 s4)]"
    and ne: "takeWhile co2Class (drop 4 u) \<noteq> []" "takeWhile humClass (drop 5 s2) \<noteq> []"
       "takeWhile tmpClass (drop 5 s4) \<noteq> []"
    using assms [symmetric] unfolding matchHere_eq Let_def s2_def s4_def
    by (simp_all split: if_splits)
  show ?thesis
    unfolding m using ne by (simp add: list_all_takeWhile)
qed

lemma FindAllStringSubmatch_alphabet:
  assumes "FindAllStringSubmatch s = m # ms"
  shows "length m = 4 \<and> m ! 1 \<noteq> [] \<and> list_all co2Class (m ! 1)
         \<and> m ! 2 \<noteq> [] \<and> list_all humClass (m ! 2)
         \<and> m ! 3 \<noteq> [] \<and> list_all tmpClass (m ! 3)"
  using FindAllStringSubmatch_head [OF assms] matchHere_groups by blast

lemma ParseInt_digits:
  assumes "g \<noteq> []" "list_all co2Class g"
  shows "ParseInt g =
     (if 2 ^ 63 \<le> decimal g then (2 ^ 63 - 1, Some ErrRange) else (int (decimal g), None))"
proof -
  from assms obtain c cs where g: "g = c # cs" by (cases g) auto
  with assms(2) have c: "hd g \<noteq> CHR ''+''" "hd g \<noteq> CHR ''-''"
    by (auto simp: co2Class_def)
  have all: "list_all isDigit g"
    using assms(2) by (simp add: list_all_iff co2Class_def isDigit_def)
  have u: "ParseUint g = (if 2 ^ 64 \<le> decimal g then (2 ^ 64 - 1, Some ErrRange) else (int (decimal g), None))"
    using assms(1) all by (simp add: ParseUint_def)
  have le: "(2::nat) ^ 64 \<le> decimal g \<Longrightarrow> (2::nat) ^ 63 \<le> decimal g"
    by (rule order_trans [of _ "2 ^ 64"]) simp_all
  have conv: "((2::int) ^ 63 \<le> int (decimal g)) = ((2::nat) ^ 63 \<le> decimal g)"
    by (metis of_nat_le_iff of_nat_numeral of_nat_power)
  show ?thesis
  proof (cases "(2::nat) ^ 64 \<le> decimal g")
    case True
    with le have "(2::nat) ^ 63 \<le> decimal g" by blast
    with True u c assms(1) show ?thesis
      by (simp add: ParseInt_def)
  next
    case False
    with u c assms(1) conv show ?thesis
      by (simp add: ParseInt_def)
  qed
qed

lemma ParseFloat_syntax_zero:
  "snd (ParseFloat g) = Some ErrSyntax \<Longrightarrow> fst (ParseFloat g) = Fin False 0"
proof -
  assume a: "snd (ParseFloat g) = Some ErrSyntax"
  obtain f where "ParseFloat g = (Fin False 0, Some ErrSyntax)
     \<or> ParseFloat g = (f, case f of Inf _ \<Rightarrow> Some ErrRange | _ \<Rightarrow> None)"
    unfolding ParseFloat_def Let_def by metis
  then show ?thesis
  proof
    assume "ParseFloat g = (Fin False 0, Some ErrSyntax)"
    then show ?thesis by simp
  next
    assume "ParseFloat g = (f, case f of Inf _ \<Rightarrow> Some ErrRange | _ \<Rightarrow> None)"
    with a show ?thesis by (cases f) simp_all
  qed
qed

section \<open>Rounding, computed from bounds\<close>

text \<open>
  \<open>floor_log2 q\<close> is the exponent of \<open>q\<close>: the one integer \<open>e\<close> with
  \<open>2^e \<le> q < 2^(e+1)\<close>. So the float64 nearest to a magnitude is found from such
  bounds, and the rounding of a quotient of two integers from their integer quotient
  and remainder.
\<close>

lemma powi2_pos: "(0::rat) < 2 powi e"
  by (simp add: power_int_def)

lemma floor_log2_bounds:
  assumes "0 < q"
  shows "2 powi floor_log2 q \<le> q \<and> q < 2 powi (floor_log2 q + 1)"
proof -
  obtain a b where ab: "quotient_of q = (a, b)" by (cases "quotient_of q")
  have b: "0 < b" using quotient_of_denom_pos [OF ab] .
  have q: "q = of_int a / of_int b" using quotient_of_div [OF ab] .
  have a: "0 < a" using assms b unfolding q by (simp add: zero_less_divide_iff)
  define ka where "ka = floorlog 2 (nat a)"
  define kb where "kb = floorlog 2 (nat b)"
  have ba: "2 ^ (ka - 1) \<le> nat a" "nat a < 2 ^ ka"
    using floorlog_bounds [of "nat a" 2] a unfolding ka_def by simp_all
  have bb: "2 ^ (kb - 1) \<le> nat b" "nat b < 2 ^ kb"
    using floorlog_bounds [of "nat b" 2] b unfolding kb_def by simp_all
  have kpos: "0 < ka" "0 < kb"
    using a b unfolding ka_def kb_def by (simp_all add: floorlog_def)
  have ra: "(2::rat) ^ (ka - 1) \<le> of_int a" "(of_int a :: rat) < 2 ^ ka"
  proof -
    have "of_nat (2 ^ (ka - 1)) \<le> (of_nat (nat a) :: rat)" using ba(1) by (simp only: of_nat_le_iff)
    then show "(2::rat) ^ (ka - 1) \<le> of_int a" using a by simp
    have "(of_nat (nat a) :: rat) < of_nat (2 ^ ka)" using ba(2) by (simp only: of_nat_less_iff)
    then show "(of_int a :: rat) < 2 ^ ka" using a by simp
  qed
  have rb: "(2::rat) ^ (kb - 1) \<le> of_int b" "(of_int b :: rat) < 2 ^ kb"
  proof -
    have "of_nat (2 ^ (kb - 1)) \<le> (of_nat (nat b) :: rat)" using bb(1) by (simp only: of_nat_le_iff)
    then show "(2::rat) ^ (kb - 1) \<le> of_int b" using b by simp
    have "(of_nat (nat b) :: rat) < of_nat (2 ^ kb)" using bb(2) by (simp only: of_nat_less_iff)
    then show "(of_int b :: rat) < 2 ^ kb" using b by simp
  qed
  define e0 where "e0 = int ka - int kb"
  have fl: "floor_log2 q = (if 2 powi e0 \<le> q then e0 else e0 - 1)"
    unfolding floor_log2_def ab e0_def ka_def kb_def by (simp add: Let_def)
  have bpos: "(0::rat) < of_int b" using b by simp
  have upper: "q < 2 powi (e0 + 1)"
  proof -
    have "of_int a * (2::rat) ^ (kb - 1) < 2 ^ ka * of_int b"
      using ra(2) rb(1) a b
      by (meson mult_less_le_imp_less of_int_0_less_iff order_less_imp_le zero_less_numeral zero_less_power)
    then have "q < 2 ^ ka / 2 ^ (kb - 1)"
      unfolding q using bpos by (simp add: field_simps)
    also have "\<dots> = 2 powi (int ka - int (kb - 1))"
      by (simp add: power_int_diff power_int_of_nat)
    also have "int ka - int (kb - 1) = e0 + 1"
      using kpos unfolding e0_def by simp
    finally show ?thesis .
  qed
  have lower: "2 powi (e0 - 1) \<le> q"
  proof -
    have "(2::rat) ^ (ka - 1) * of_int b \<le> of_int a * 2 ^ kb"
      using ra(1) rb(2) a b
      by (meson mult_mono of_int_0_le_iff order_less_imp_le zero_le_numeral zero_le_power)
    then have "2 ^ (ka - 1) / 2 ^ kb \<le> q"
      unfolding q using bpos by (simp add: field_simps)
    moreover have "(2::rat) ^ (ka - 1) / 2 ^ kb = 2 powi (int (ka - 1) - int kb)"
      by (simp add: power_int_diff power_int_of_nat)
    moreover have "int (ka - 1) - int kb = e0 - 1"
      using kpos unfolding e0_def by simp
    ultimately show ?thesis by simp
  qed
  show ?thesis
    using upper lower unfolding fl by (simp add: not_le)
qed

lemma floor_log2_eq:
  assumes "2 powi e \<le> q" "q < 2 powi (e + 1)"
  shows "floor_log2 q = e"
proof -
  have q: "0 < q" using powi2_pos [of e] assms(1) by (rule less_le_trans)
  note b = floor_log2_bounds [OF q]
  have "\<not> floor_log2 q < e"
  proof
    assume "floor_log2 q < e"
    then have "floor_log2 q + 1 \<le> e" by simp
    then have "(2::rat) powi (floor_log2 q + 1) \<le> 2 powi e"
      by (rule power_int_increasing) simp
    with b assms show False by simp
  qed
  moreover have "\<not> e < floor_log2 q"
  proof
    assume "e < floor_log2 q"
    then have "e + 1 \<le> floor_log2 q" by simp
    then have "(2::rat) powi (e + 1) \<le> 2 powi floor_log2 q"
      by (rule power_int_increasing) simp
    with b assms show False by simp
  qed
  ultimately show ?thesis by simp
qed

lemma round_float64_eq:
  assumes "2 powi e \<le> q" "q < 2 powi (e + 1)"
  shows "round_float64 neg q =
     (let ulp = 2 powi (max e (- 1022) - 52);
          r = of_int (round_half_even (q / ulp)) * ulp
      in if 2 powi 1024 \<le> r then Inf neg else Fin neg r)"
proof -
  have "0 < q" using powi2_pos [of e] assms(1) by (rule less_le_trans)
  then have "q \<noteq> 0" by simp
  then show ?thesis
    unfolding round_float64_def floor_log2_eq [OF assms] by (simp add: Let_def)
qed

lemma round_half_even_quot:
  assumes "0 < b"
  shows "round_half_even (of_int a / of_int b) =
     (let f = a div b; r = a mod b
      in if 2 * r < b then f else if b < 2 * r then f + 1 else if even f then f else f + 1)"
proof -
  have fl: "\<lfloor>of_int a / of_int b :: rat\<rfloor> = a div b"
    by (simp add: floor_divide_of_int_eq)
  have "(of_int a :: rat) = of_int b * of_int (a div b) + of_int (a mod b)"
    by (metis mult_div_mod_eq of_int_add of_int_mult)
  then have d: "of_int a / of_int b - of_int (a div b) = (of_int (a mod b) / of_int b :: rat)"
    using assms by (simp add: field_simps)
  have lt: "((of_int (a mod b) / of_int b :: rat) < 1 / 2) = (2 * (a mod b) < b)"
  proof -
    have "((of_int (a mod b) / of_int b :: rat) < 1 / 2) = ((of_int (2 * (a mod b)) :: rat) < of_int b)"
      using assms by (simp add: field_simps)
    then show ?thesis by (simp only: of_int_less_iff)
  qed
  have gt: "(1 / 2 < (of_int (a mod b) / of_int b :: rat)) = (b < 2 * (a mod b))"
  proof -
    have "(1 / 2 < (of_int (a mod b) / of_int b :: rat)) = ((of_int b :: rat) < of_int (2 * (a mod b)))"
      using assms by (simp add: field_simps)
    then show ?thesis by (simp only: of_int_less_iff)
  qed
  show ?thesis
    unfolding round_half_even_def Let_def fl d lt gt ..
qed

lemma round_half_even_numeral:
  "round_half_even (numeral a / numeral b) =
     (let f = (numeral a div numeral b :: int); r = (numeral a mod numeral b :: int)
      in if 2 * r < numeral b then f else if numeral b < 2 * r then f + 1
         else if even f then f else f + 1)"
  using round_half_even_quot [of "numeral b" "numeral a"] by simp

lemma round_half_even_int: "round_half_even (of_int n) = n"
  by (simp add: round_half_even_def)

lemma round_half_even_whole: "round_half_even (numeral n) = numeral n"
  using round_half_even_int [of "numeral n"] by simp

lemma round_float64_zero: "round_float64 neg 0 = Fin neg 0"
  by (simp add: round_float64_def)

lemmas round_eval = round_float64_zero round_half_even_numeral round_half_even_whole Let_def signed_def fsub_def

lemma float64_const_values:
  "float64_const (45 / 10) = Fin False (9 / 2)"
  "float64_const (75 / 10) = Fin False (15 / 2)"
  "float64_const 10 = Fin False 10"
  "float64_const (231 / 10) = Fin False (3251035981008077 / 2 ^ 47)"
  "float64_const (453 / 10) = Fin False (3187704111248179 / 2 ^ 46)"
  "float64_const (2373 / 10) = Fin False (4174625748339917 / 2 ^ 44)"
  "float64_const (186 / 10) = Fin False (2617717283409101 / 2 ^ 47)"
  by (simp_all add: float64_const_def round_eval round_float64_eq [of 2] round_float64_eq [of 3]
        round_float64_eq [of 4] round_float64_eq [of 5] round_float64_eq [of 7])

lemma float64_const_reduced:
  "float64_const (9 / 2) = Fin False (9 / 2)"
  "float64_const (15 / 2) = Fin False (15 / 2)"
  "float64_const (93 / 5) = Fin False (2617717283409101 / 2 ^ 47)"
  using float64_const_values by simp_all

lemmas float64_const_eval = float64_const_values float64_const_reduced

lemma temperature_example:
  "fsub (Fin False (3251035981008077 / 2 ^ 47)) (Fin False (9 / 2)) = Fin False (2617717283409101 / 2 ^ 47)"
  by (simp add: round_eval round_float64_eq [of 4])

lemma exponent_example_raw:
  "fquo (fmul (Fin False (15 / 2)) (Fin False (3251035981008077 / 2 ^ 47)))
        (fadd (Fin False (3251035981008077 / 2 ^ 47)) (Fin False (4174625748339917 / 2 ^ 44)))
   = Fin False (2996346526274725 / 2 ^ 52)"
  by (simp add: round_eval round_float64_eq [of 7] round_float64_eq [of 8] round_float64_eq [of "- 1"])

lemma exponent_example_corrected:
  "fquo (fmul (Fin False (15 / 2)) (Fin False (2617717283409101 / 2 ^ 47)))
        (fadd (Fin False (2617717283409101 / 2 ^ 47)) (Fin False (4174625748339917 / 2 ^ 44)))
   = Fin False (1227534482255147 / 2 ^ 51)"
  by (simp add: round_eval round_float64_eq [of 7] round_float64_eq [of "- 1"])

section \<open>A matched line and the compensation\<close>

lemma decode_Cons:
  assumes "FindAllStringSubmatch text = m # ms"
  shows "decode pow now text =
      Reading \<lparr>CO2 = (if 2 ^ 63 \<le> decimal (m ! 1) then 2 ^ 63 - 1 else int (decimal (m ! 1))),
               Humidity = correctHumidity pow (fst (ParseFloat (m ! 2))) (fst (ParseFloat (m ! 3))),
               Temperature = correctTemperature (fst (ParseFloat (m ! 3))),
               Timestamp = now\<rparr>"
proof -
  from FindAllStringSubmatch_alphabet [OF assms]
  have g: "m ! 1 \<noteq> []" "list_all co2Class (m ! 1)" by simp_all
  have co2: "fst (ParseInt (m ! 1)) =
      (if 2 ^ 63 \<le> decimal (m ! 1) then 2 ^ 63 - 1 else int (decimal (m ! 1)))"
    using ParseInt_digits [OF g] by simp
  show ?thesis
    unfolding decode_def assms co2 [symmetric] by (simp add: Let_def)
qed

lemma correctTemperature_Fin:
  assumes "0 \<le> x"
  shows "correctTemperature (Fin a x) =
     (if signed a x = 9 / 2 then Fin False 0
      else round_float64 (signed a x < 9 / 2) \<bar>signed a x - 9 / 2\<bar>)"
proof -
  have c: "float64_const (45 / 10) = Fin False (9 / 2)"
    by (rule float64_const_values)
  have "signed a x = 9 / 2 \<Longrightarrow> \<not> a"
    using assms by (auto simp: signed_def)
  then show ?thesis
    unfolding correctTemperature_def c fsub_def
    by (auto simp: Let_def signed_def)
qed

lemma correctTemperature_special:
  "correctTemperature (Inf a) = Inf a" "correctTemperature NaN = NaN"
  using float64_const_values(1) by (simp_all add: correctTemperature_def fsub_def)

lemma find_line:
  "FindAllStringSubmatch ''CO2=412,HUM=45.3,TMP=23.1'' =
     [''CO2=412,HUM=45.3,TMP=23.1'', ''412'', ''45.3'', ''23.1''] # []"
  by (simp add: FindAll_eval)


lemma find_line_garbage:
  "FindAllStringSubmatch ''garbage CO2=412,HUM=45.3,TMP=23.1 trailing'' =
     [''CO2=412,HUM=45.3,TMP=23.1'', ''412'', ''45.3'', ''23.1''] # []"
  by (simp add: FindAll_eval)

lemma parse_line:
  "fst (ParseInt ''412'') = 412"
  "fst (ParseFloat ''45.3'') = float64_const (453 / 10)"
  "fst (ParseFloat ''23.1'') = float64_const (231 / 10)"
  by (simp_all add: Parse_eval)


section \<open>The compensation formulas\<close>

text \<open>
  C1. The temperature correction returns the float64 difference \<open>t - 4.5\<close>: the
  constant is the float64 \<open>9/2\<close>, and for a finite \<open>t\<close> the result is the exact
  difference rounded to the nearest float64 (\<open>+0\<close> when it is zero); an infinity and
  NaN are returned as they are. The humidity correction returns
  \<open>h * pow(10, 7.5*t/(t+237.3)) / pow(10, 7.5*t1/(t1+237.3))\<close> with
  \<open>t1 = t - 4.5\<close>, every operation a float64 operation, whatever function
  \<open>math.Pow\<close> is. The CO2 value of a reading is the number its digits denote, with no
  correction (\<open>2^63 - 1\<close> when the number does not fit int64).
\<close>

theorem compensation_formulas:
  assumes "0 \<le> x" and "FindAllStringSubmatch line = m # ms"
  shows "correctTemperature t = fsub t (float64_const (45 / 10))
    \<and> float64_const (45 / 10) = Fin False (9 / 2)
    \<and> correctTemperature (Fin a x) =
           (if signed a x = 9 / 2 then Fin False 0
            else round_float64 (signed a x < 9 / 2) \<bar>signed a x - 9 / 2\<bar>)
    \<and> correctTemperature (Inf a) = Inf a
    \<and> correctTemperature NaN = NaN
    \<and> correctHumidity pow h t =
           fquo (fmul h
                   (pow (float64_const 10)
                      (fquo (fmul (float64_const (75 / 10)) t) (fadd t (float64_const (2373 / 10))))))
                (pow (float64_const 10)
                   (fquo (fmul (float64_const (75 / 10)) (fsub t (float64_const (45 / 10))))
                         (fadd (fsub t (float64_const (45 / 10))) (float64_const (2373 / 10)))))
    \<and> (\<exists>d. decode pow now line = Reading d
           \<and> CO2 d = (if 2 ^ 63 \<le> decimal (m ! 1) then 2 ^ 63 - 1 else int (decimal (m ! 1))))"
proof -
  have 1: "correctTemperature t = fsub t (float64_const (45 / 10))"
    by (simp add: correctTemperature_def)
  have 2: "float64_const (45 / 10) = Fin False (9 / 2)"
    by (rule float64_const_values)
  have 3: "correctTemperature (Fin a x) =
           (if signed a x = 9 / 2 then Fin False 0
            else round_float64 (signed a x < 9 / 2) \<bar>signed a x - 9 / 2\<bar>)"
    using assms(1) by (rule correctTemperature_Fin)
  have 4: "correctHumidity pow h t =
           fquo (fmul h
                   (pow (float64_const 10)
                      (fquo (fmul (float64_const (75 / 10)) t) (fadd t (float64_const (2373 / 10))))))
                (pow (float64_const 10)
                   (fquo (fmul (float64_const (75 / 10)) (fsub t (float64_const (45 / 10))))
                         (fadd (fsub t (float64_const (45 / 10))) (float64_const (2373 / 10)))))"
    by (simp add: correctHumidity_def correctTemperature_def Let_def)
  have 5: "\<exists>d. decode pow now line = Reading d
           \<and> CO2 d = (if 2 ^ 63 \<le> decimal (m ! 1) then 2 ^ 63 - 1 else int (decimal (m ! 1)))"
    unfolding decode_Cons [OF assms(2)] by simp
  from 1 2 3 correctTemperature_special 4 5 show ?thesis by (intro conjI)
qed


theorem compensation_formulas_witness:
  "correctTemperature (Fin False (3251035981008077 / 2 ^ 47)) = Fin False (2617717283409101 / 2 ^ 47)
   \<and> correctTemperature (Fin False (9 / 2)) = Fin False 0
   \<and> correctHumidity (\<lambda>x y. y) (Fin False 2) (Fin False (9 / 2)) = Inf False
   \<and> (\<exists>d. decode (\<lambda>x y. y) \<lparr>Year = 2024, Month = 5, Day = 17, Hour = 9, Minute = 30, Second = 0,
                            Nanosecond = 0, Offset = 0\<rparr> ''CO2=412,HUM=45.3,TMP=23.1'' = Reading d
          \<and> CO2 d = 412)"
  using compensation_formulas [where x = "3251035981008077 / 2 ^ 47" and a = False
      and t = "Fin False (9 / 2)" and pow = "\<lambda>x y. y" and h = "Fin False 2"
      and line = "''CO2=412,HUM=45.3,TMP=23.1''"
      and m = "[''CO2=412,HUM=45.3,TMP=23.1'', ''412'', ''45.3'', ''23.1'']" and ms = "[]"
      and now = "\<lparr>Year = 2024, Month = 5, Day = 17, Hour = 9, Minute = 30, Second = 0,
                            Nanosecond = 0, Offset = 0\<rparr>"]
  by (simp add: find_line float64_const_eval round_eval decimal_def digitVal_def
        round_float64_eq [of 4] round_float64_eq [of 5] round_float64_eq [of 7]
        round_float64_eq [of "- 3"] round_float64_eq [of "- 2"])

section \<open>Decoding a telemetry line\<close>

text \<open>
  C5. The line \<^verbatim>\<open>CO2=412,HUM=45.3,TMP=23.1\<close> decodes to a reading with co2 412,
  temperature the float64 of 23.1 minus 4.5, which is the float64 of 18.6, and humidity
  \<open>45.3 * pow(10, 7.5*23.1/(23.1+237.3)) / pow(10, 7.5*t1/(t1+237.3))\<close> with
  \<open>t1 = 23.1 - 4.5\<close> in float64 arithmetic: the two exponents handed to
  \<open>math.Pow\<close> are the float64 values 0.6653225806451613 and 0.5451348182883939. The
  same line with text before and after the pattern decodes to the same reading.
\<close>

theorem decode_telemetry_line:
  "decode pow now ''CO2=412,HUM=45.3,TMP=23.1'' =
     Reading \<lparr>CO2 = 412,
              Humidity =
                fquo (fmul (float64_const (453 / 10))
                        (pow (float64_const 10)
                           (fquo (fmul (float64_const (75 / 10)) (float64_const (231 / 10)))
                                 (fadd (float64_const (231 / 10)) (float64_const (2373 / 10))))))
                     (pow (float64_const 10)
                        (fquo (fmul (float64_const (75 / 10))
                                 (fsub (float64_const (231 / 10)) (float64_const (45 / 10))))
                              (fadd (fsub (float64_const (231 / 10)) (float64_const (45 / 10)))
                                 (float64_const (2373 / 10))))),
              Temperature = fsub (float64_const (231 / 10)) (float64_const (45 / 10)),
              Timestamp = now\<rparr>
   \<and> decode pow now ''CO2=412,HUM=45.3,TMP=23.1'' =
     Reading \<lparr>CO2 = 412,
              Humidity =
                fquo (fmul (Fin False (3187704111248179 / 2 ^ 46))
                        (pow (Fin False 10) (Fin False (2996346526274725 / 2 ^ 52))))
                     (pow (Fin False 10) (Fin False (1227534482255147 / 2 ^ 51))),
              Temperature = Fin False (2617717283409101 / 2 ^ 47),
              Timestamp = now\<rparr>
   \<and> float64_const (186 / 10) = Fin False (2617717283409101 / 2 ^ 47)
   \<and> decode pow now ''garbage CO2=412,HUM=45.3,TMP=23.1 trailing'' =
       decode pow now ''CO2=412,HUM=45.3,TMP=23.1''"
proof -
  have 1: "decode pow now ''CO2=412,HUM=45.3,TMP=23.1'' =
     Reading \<lparr>CO2 = 412,
              Humidity =
                fquo (fmul (float64_const (453 / 10))
                        (pow (float64_const 10)
                           (fquo (fmul (float64_const (75 / 10)) (float64_const (231 / 10)))
                                 (fadd (float64_const (231 / 10)) (float64_const (2373 / 10))))))
                     (pow (float64_const 10)
                        (fquo (fmul (float64_const (75 / 10))
                                 (fsub (float64_const (231 / 10)) (float64_const (45 / 10))))
                              (fadd (fsub (float64_const (231 / 10)) (float64_const (45 / 10)))
                                 (float64_const (2373 / 10))))),
              Temperature = fsub (float64_const (231 / 10)) (float64_const (45 / 10)),
              Timestamp = now\<rparr>"
    unfolding decode_def find_line
    by (simp add: parse_line Let_def correctHumidity_def correctTemperature_def)
  have 2: "decode pow now ''garbage CO2=412,HUM=45.3,TMP=23.1 trailing'' =
       decode pow now ''CO2=412,HUM=45.3,TMP=23.1''"
    unfolding decode_def find_line find_line_garbage by simp
  have 3: "decode pow now ''CO2=412,HUM=45.3,TMP=23.1'' =
     Reading \<lparr>CO2 = 412,
              Humidity =
                fquo (fmul (Fin False (3187704111248179 / 2 ^ 46))
                        (pow (Fin False 10) (Fin False (2996346526274725 / 2 ^ 52))))
                     (pow (Fin False 10) (Fin False (1227534482255147 / 2 ^ 51))),
              Temperature = Fin False (2617717283409101 / 2 ^ 47),
              Timestamp = now\<rparr>"
    unfolding 1 float64_const_values temperature_example exponent_example_raw
      exponent_example_corrected by simp
  from 1 3 float64_const_values(7) 2 show ?thesis by (intro conjI)
qed

lemma scanLoop_Nil:
  "pending w = [] \<Longrightarrow>
   scanLoop pow latest w =
     (ExitScan, latest, w\<lparr>scanErr := failing w, effects := effects w @ [ScanFalse]\<rparr>)"
  by (subst scanLoop.simps) (simp add: Scan_def)

lemma scanLoop_Cons:
  "pending w = e # es \<Longrightarrow>
   scanLoop pow latest w =
     (if ev_done e
      then (ExitBreak, latest, w\<lparr>pending := es, effects := effects w @ [Scanned (ev_text e)]\<rparr>)
      else case decode pow (ev_now e) (ev_text e) of
             Reading d \<Rightarrow>
               scanLoop pow (Some d) (w\<lparr>pending := es, effects := effects w @ [Scanned (ev_text e)]\<rparr>)
           | StopAcknowledged \<Rightarrow>
               (ExitBreak, latest, w\<lparr>pending := es, effects := effects w @ [Scanned (ev_text e)]\<rparr>)
           | NotAFrame msg \<Rightarrow>
               scanLoop pow latest
                 (logPrint msg (w\<lparr>pending := es, effects := effects w @ [Scanned (ev_text e)]\<rparr>))
           | SlicePanic \<Rightarrow>
               (ExitPanic, latest, w\<lparr>pending := es, effects := effects w @ [Scanned (ev_text e)]\<rparr>))"
  by (subst scanLoop.simps) (simp add: Scan_def)

text \<open>
  C2, as the code has it. A line in which the pattern matches is never rejected: the loop
  stores a reading built from what the three parse calls return, their errors
  discarded. The CO2 group is a run of digits, so its value is the number, or
  \<open>2^63 - 1\<close> when that does not fit int64; a humidity or temperature group that is
  not a number (a syntax error) counts as 0.
\<close>

theorem matched_line_is_always_stored:
  assumes "FindAllStringSubmatch (ev_text e) = m # ms" and "\<not> ev_done e" and "pending w = e # es"
  shows "scanLoop pow latest w =
           scanLoop pow
             (Some \<lparr>CO2 = (if 2 ^ 63 \<le> decimal (m ! 1) then 2 ^ 63 - 1 else int (decimal (m ! 1))),
                    Humidity = correctHumidity pow (fst (ParseFloat (m ! 2))) (fst (ParseFloat (m ! 3))),
                    Temperature = correctTemperature (fst (ParseFloat (m ! 3))),
                    Timestamp = ev_now e\<rparr>)
             (w\<lparr>pending := es, effects := effects w @ [Scanned (ev_text e)]\<rparr>)
         \<and> (snd (ParseFloat (m ! 2)) = Some ErrSyntax \<longrightarrow> fst (ParseFloat (m ! 2)) = Fin False 0)
         \<and> (snd (ParseFloat (m ! 3)) = Some ErrSyntax \<longrightarrow> fst (ParseFloat (m ! 3)) = Fin False 0)"
  using assms(2)
  by (simp add: scanLoop_Cons [OF assms(3)] decode_Cons [OF assms(1)] ParseFloat_syntax_zero)

lemma find_example:
  "FindAllStringSubmatch ''CO2=412,HUM=1.2.3,TMP=23.1'' =
     [''CO2=412,HUM=1.2.3,TMP=23.1'', ''412'', ''1.2.3'', ''23.1''] # []"
  by (simp add: FindAll_eval)

theorem matched_line_is_always_stored_witness:
  "scanLoop (\<lambda>x y. NaN) None
     \<lparr>pending = [\<lparr>ev_done = False,
                  ev_now = \<lparr>Year = 2024, Month = 5, Day = 17, Hour = 9, Minute = 30, Second = 0,
                            Nanosecond = 0, Offset = 0\<rparr>,
                  ev_text = ''CO2=412,HUM=1.2.3,TMP=23.1''\<rparr>],
      failing = False, scanErr = False, writeOK = [], effects = []\<rparr> =
   (ExitScan,
    Some \<lparr>CO2 = 412, Humidity = correctHumidity (\<lambda>x y. NaN) (Fin False 0) (float64_const (231 / 10)),
          Temperature = correctTemperature (float64_const (231 / 10)),
          Timestamp = \<lparr>Year = 2024, Month = 5, Day = 17, Hour = 9, Minute = 30, Second = 0,
                            Nanosecond = 0, Offset = 0\<rparr>\<rparr>,
    \<lparr>pending = [], failing = False, scanErr = False, writeOK = [],
     effects = [Scanned ''CO2=412,HUM=1.2.3,TMP=23.1'', ScanFalse]\<rparr>)"
  using matched_line_is_always_stored
    [of "\<lparr>ev_done = False,
                  ev_now = \<lparr>Year = 2024, Month = 5, Day = 17, Hour = 9, Minute = 30, Second = 0,
                            Nanosecond = 0, Offset = 0\<rparr>,
                  ev_text = ''CO2=412,HUM=1.2.3,TMP=23.1''\<rparr>"
        "[''CO2=412,HUM=1.2.3,TMP=23.1'', ''412'', ''1.2.3'', ''23.1'']" "[]"
        "\<lparr>pending = [\<lparr>ev_done = False,
                  ev_now = \<lparr>Year = 2024, Month = 5, Day = 17, Hour = 9, Minute = 30, Second = 0,
                            Nanosecond = 0, Offset = 0\<rparr>,
                  ev_text = ''CO2=412,HUM=1.2.3,TMP=23.1''\<rparr>],
      failing = False, scanErr = False, writeOK = [], effects = []\<rparr>" "[]" "\<lambda>x y. NaN" None]
  by (simp add: find_example scanLoop_Nil Parse_eval)

text \<open>
  The claim C2 fails on the line \<^verbatim>\<open>CO2=412,HUM=1.2.3,TMP=23.1\<close>: the humidity group
  \<open>1.2.3\<close> is a syntax error of \<open>ParseFloat\<close>, and the line decodes to a reading
  whose humidity is computed from 0. The line \<^verbatim>\<open>CO2=abc,HUM=1,TMP=2\<close> does not match
  the pattern at all and is logged as unmatched.
\<close>

theorem unparsed_field_is_defaulted:
  "ParseFloat ''1.2.3'' = (Fin False 0, Some ErrSyntax)
   \<and> (\<forall>pow now. decode pow now ''CO2=412,HUM=1.2.3,TMP=23.1'' =
        Reading \<lparr>CO2 = 412,
                 Humidity = correctHumidity pow (Fin False 0) (float64_const (231 / 10)),
                 Temperature = correctTemperature (float64_const (231 / 10)),
                 Timestamp = now\<rparr>)
   \<and> (\<forall>pow now. decode pow now ''CO2=abc,HUM=1,TMP=2'' =
        NotAFrame ''Read unmatched string: CO2=abc,HUM=1,TMP=2'')"
  by (simp add: decode_def FindAll_eval Parse_eval)

section \<open>The minus sign in the pattern\<close>

lemma takeWhile_stop:
  "list_all P xs \<Longrightarrow> ys = [] \<or> \<not> P (hd ys) \<Longrightarrow> takeWhile P (xs @ ys) = xs"
  by (induction xs) (auto simp: takeWhile_eq_Nil_iff)

lemma dropWhile_stop:
  "list_all P xs \<Longrightarrow> ys = [] \<or> \<not> P (hd ys) \<Longrightarrow> dropWhile P (xs @ ys) = ys"
  by (induction xs) (auto simp: dropWhile_eq_self_iff)

lemma list_all_not_mem: "list_all P xs \<Longrightarrow> \<not> P c \<Longrightarrow> c \<notin> set xs"
  by (auto simp: list_all_iff)

lemma class_chars:
  "\<not> co2Class CHR '',''" "\<not> humClass CHR '',''" "\<not> co2Class CHR ''C''"
  "tmpClass CHR ''-''" "\<not> humClass CHR ''-''"
  by (simp_all add: co2Class_def humClass_def tmpClass_def)

lemma matchHere_frame:
  assumes "co2 \<noteq> []" "list_all co2Class co2" "h \<noteq> []" "list_all humClass h"
    "t \<noteq> []" "list_all tmpClass t" "post = [] \<or> \<not> tmpClass (hd post)"
  shows "matchHere (''CO2='' @ co2 @ '',HUM='' @ h @ '',TMP='' @ t @ post) =
           Some ([''CO2='' @ co2 @ '',HUM='' @ h @ '',TMP='' @ t, co2, h, t], post)"
proof -
  have 1: "takeWhile co2Class (co2 @ '',HUM='' @ h @ '',TMP='' @ t @ post) = co2"
    "dropWhile co2Class (co2 @ '',HUM='' @ h @ '',TMP='' @ t @ post) = '',HUM='' @ h @ '',TMP='' @ t @ post"
    using takeWhile_stop [OF assms(2), of "'',HUM='' @ h @ '',TMP='' @ t @ post"]
      dropWhile_stop [OF assms(2), of "'',HUM='' @ h @ '',TMP='' @ t @ post"] class_chars(1)
    by simp_all
  have 2: "takeWhile humClass (h @ '',TMP='' @ t @ post) = h"
    "dropWhile humClass (h @ '',TMP='' @ t @ post) = '',TMP='' @ t @ post"
    using takeWhile_stop [OF assms(4), of "'',TMP='' @ t @ post"]
      dropWhile_stop [OF assms(4), of "'',TMP='' @ t @ post"] class_chars(2)
    by simp_all
  have 3: "takeWhile tmpClass (t @ post) = t" "dropWhile tmpClass (t @ post) = post"
    using takeWhile_stop [OF assms(6,7)] dropWhile_stop [OF assms(6,7)] by simp_all
  have g: "take (length (W @ post) - length post) (W @ post) = W" for W :: string
    by simp
  have 4: "take (length ((''CO2='' @ co2 @ '',HUM='' @ h @ '',TMP='' @ t) @ post) - length post)
             ((''CO2='' @ co2 @ '',HUM='' @ h @ '',TMP='' @ t) @ post) =
           ''CO2='' @ co2 @ '',HUM='' @ h @ '',TMP='' @ t"
    by (rule g)
  show ?thesis
    unfolding matchHere_eq using assms(1,3,5) 1 2 3 4 by (simp add: Let_def)
qed

lemma matchHere_no_C: "CHR ''C'' \<noteq> c \<Longrightarrow> matchHere (c # s) = None"
  by (auto simp: matchHere_eq eval_nat_numeral)

lemma FindAllStringSubmatch_skip:
  "CHR ''C'' \<notin> set pre \<Longrightarrow> FindAllStringSubmatch (pre @ u) = FindAllStringSubmatch u"
  by (induction pre) (simp_all add: FindAllStringSubmatch_Cons matchHere_no_C)

lemma FindAllStringSubmatch_found:
  "matchHere u = Some (m, rest) \<Longrightarrow> \<exists>m' ms. FindAllStringSubmatch (pre @ u) = m' # ms"
proof (induction pre)
  case Nil
  then have "u \<noteq> []" using matchHere_shorter [OF Nil] by auto
  then obtain c cs where "u = c # cs" by (cases u) auto
  with Nil show ?case by (simp add: FindAllStringSubmatch_Cons)
next
  case (Cons c pre)
  then show ?case
    by (simp add: FindAllStringSubmatch_Cons split: option.splits)
qed

lemma matchHere_negative_humidity:
  assumes "list_all co2Class co2"
  shows "matchHere (''CO2='' @ co2 @ '',HUM=-'' @ rest) = None"
proof -
  have 1: "takeWhile co2Class (co2 @ '',HUM=-'' @ rest) = co2"
    "dropWhile co2Class (co2 @ '',HUM=-'' @ rest) = '',HUM=-'' @ rest"
    using takeWhile_stop [OF assms, of "'',HUM=-'' @ rest"]
      dropWhile_stop [OF assms, of "'',HUM=-'' @ rest"] class_chars(1)
    by simp_all
  show ?thesis
    unfolding matchHere_eq using 1 class_chars(5) by (simp add: Let_def)
qed

lemma FindAllStringSubmatch_negative_humidity:
  assumes "list_all co2Class co2" "CHR ''C'' \<notin> set pre"
  shows "FindAllStringSubmatch (pre @ ''CO2='' @ co2 @ '',HUM=-'' @ rest) = FindAllStringSubmatch rest"
proof -
  have "CHR ''C'' \<notin> set (''O2='' @ co2 @ '',HUM=-'')"
    using list_all_not_mem [OF assms(1) class_chars(3)] by simp
  from FindAllStringSubmatch_skip [OF this, of rest]
  have "FindAllStringSubmatch (''O2='' @ co2 @ '',HUM=-'' @ rest) = FindAllStringSubmatch rest"
    by simp
  moreover have "FindAllStringSubmatch (''CO2='' @ co2 @ '',HUM=-'' @ rest) =
      FindAllStringSubmatch (''O2='' @ co2 @ '',HUM=-'' @ rest)"
    using matchHere_negative_humidity [OF assms(1), of rest]
    by (simp add: FindAllStringSubmatch_Cons)
  ultimately show ?thesis
    using FindAllStringSubmatch_skip [OF assms(2), of "''CO2='' @ co2 @ '',HUM=-'' @ rest"]
    by simp
qed

text \<open>
  C10. The class of the temperature group holds \<open>-\<close> and the class of the humidity
  group does not. A line \<^verbatim>\<open>CO2=<digits>,HUM=<h>,TMP=-<t>\<close> matches, with the
  temperature group \<open>-<t>\<close>, and is decoded to a reading whose temperature is computed
  from \<open>ParseFloat\<close> of \<open>-<t>\<close>: after any text, and with these very fields when
  the text before holds no \<open>C\<close> and the text after does not go on with a byte of the
  temperature class. With \<open>HUM=-\<close> the pattern does not match at that position: the
  matches of the line are those found after the minus sign, and when there is none the
  line is logged as unmatched.
\<close>

theorem minus_in_temperature_not_in_humidity:
  assumes "co2 \<noteq> []" "list_all co2Class co2" "h \<noteq> []" "list_all humClass h"
    "list_all tmpClass t" "post = [] \<or> \<not> tmpClass (hd post)" "CHR ''C'' \<notin> set pre"
    "CHR ''C'' \<notin> set rest"
  shows "tmpClass CHR ''-'' \<and> \<not> humClass CHR ''-''
    \<and> matchHere (''CO2='' @ co2 @ '',HUM='' @ h @ '',TMP=-'' @ t @ post) =
        Some ([''CO2='' @ co2 @ '',HUM='' @ h @ '',TMP=-'' @ t, co2, h, ''-'' @ t], post)
    \<and> decode pow now (pre @ ''CO2='' @ co2 @ '',HUM='' @ h @ '',TMP=-'' @ t @ post) =
        Reading \<lparr>CO2 = (if 2 ^ 63 \<le> decimal co2 then 2 ^ 63 - 1 else int (decimal co2)),
                 Humidity = correctHumidity pow (fst (ParseFloat h)) (fst (ParseFloat (''-'' @ t))),
                 Temperature = correctTemperature (fst (ParseFloat (''-'' @ t))),
                 Timestamp = now\<rparr>
    \<and> (\<exists>d. decode pow now (before @ ''CO2='' @ co2 @ '',HUM='' @ h @ '',TMP=-'' @ t @ post) = Reading d)
    \<and> matchHere (''CO2='' @ co2 @ '',HUM=-'' @ later) = None
    \<and> FindAllStringSubmatch (pre @ ''CO2='' @ co2 @ '',HUM=-'' @ later) = FindAllStringSubmatch later
    \<and> decode pow now (''CO2='' @ co2 @ '',HUM=-'' @ rest) =
        NotAFrame (''Read unmatched string: '' @ ''CO2='' @ co2 @ '',HUM=-'' @ rest)"
proof -
  have t': "''-'' @ t \<noteq> []" "list_all tmpClass (''-'' @ t)"
    using assms(5) class_chars(4) by simp_all
  from matchHere_frame [OF assms(1-4) t' assms(6)]
  have 1: "matchHere (''CO2='' @ co2 @ '',HUM='' @ h @ '',TMP=-'' @ t @ post) =
        Some ([''CO2='' @ co2 @ '',HUM='' @ h @ '',TMP=-'' @ t, co2, h, ''-'' @ t], post)"
    by simp
  then have "FindAllStringSubmatch (''CO2='' @ co2 @ '',HUM='' @ h @ '',TMP=-'' @ t @ post) =
      [''CO2='' @ co2 @ '',HUM='' @ h @ '',TMP=-'' @ t, co2, h, ''-'' @ t] # FindAllStringSubmatch post"
    by (simp add: FindAllStringSubmatch_Cons)
  with FindAllStringSubmatch_skip [OF assms(7), of "''CO2='' @ co2 @ '',HUM='' @ h @ '',TMP=-'' @ t @ post"]
  have "FindAllStringSubmatch (pre @ ''CO2='' @ co2 @ '',HUM='' @ h @ '',TMP=-'' @ t @ post) =
      [''CO2='' @ co2 @ '',HUM='' @ h @ '',TMP=-'' @ t, co2, h, ''-'' @ t] # FindAllStringSubmatch post"
    by simp
  from decode_Cons [OF this, of pow now]
  have 2: "decode pow now (pre @ ''CO2='' @ co2 @ '',HUM='' @ h @ '',TMP=-'' @ t @ post) =
        Reading \<lparr>CO2 = (if 2 ^ 63 \<le> decimal co2 then 2 ^ 63 - 1 else int (decimal co2)),
                 Humidity = correctHumidity pow (fst (ParseFloat h)) (fst (ParseFloat (''-'' @ t))),
                 Temperature = correctTemperature (fst (ParseFloat (''-'' @ t))),
                 Timestamp = now\<rparr>"
    by simp
  from FindAllStringSubmatch_found [OF 1, of before] obtain m' ms where
    "FindAllStringSubmatch (before @ ''CO2='' @ co2 @ '',HUM='' @ h @ '',TMP=-'' @ t @ post) = m' # ms"
    by blast
  from decode_Cons [OF this, of pow now]
  have 3: "\<exists>d. decode pow now (before @ ''CO2='' @ co2 @ '',HUM='' @ h @ '',TMP=-'' @ t @ post) = Reading d"
    by blast
  have 4: "matchHere (''CO2='' @ co2 @ '',HUM=-'' @ later) = None"
    by (rule matchHere_negative_humidity [OF assms(2)])
  have nil: "CHR ''C'' \<notin> set []" by simp
  from FindAllStringSubmatch_negative_humidity [OF assms(2) assms(7), of later]
  have 5: "FindAllStringSubmatch (pre @ ''CO2='' @ co2 @ '',HUM=-'' @ later) = FindAllStringSubmatch later" .
  from FindAllStringSubmatch_skip [OF assms(8), of "[]"]
  have "FindAllStringSubmatch rest = []"
    by (simp add: FindAllStringSubmatch_Nil)
  with FindAllStringSubmatch_negative_humidity [OF assms(2) nil, of rest]
  have "FindAllStringSubmatch (''CO2='' @ co2 @ '',HUM=-'' @ rest) = []"
    by simp
  then have 6: "decode pow now (''CO2='' @ co2 @ '',HUM=-'' @ rest) =
        NotAFrame (''Read unmatched string: '' @ ''CO2='' @ co2 @ '',HUM=-'' @ rest)"
    using assms(1) by (cases co2) (simp_all add: decode_def)
  from class_chars(4,5) 1 2 3 4 5 6 show ?thesis by (intro conjI)
qed


theorem minus_in_temperature_not_in_humidity_witness:
  "decode (\<lambda>x y. NaN) \<lparr>Year = 2024, Month = 5, Day = 17, Hour = 9, Minute = 30, Second = 0,
                        Nanosecond = 0, Offset = 0\<rparr> ''>> CO2=700,HUM=40.1,TMP=-3.2 <<'' =
     Reading \<lparr>CO2 = 700, Humidity = NaN, Temperature = Fin True (8669429282688205 / 2 ^ 50),
              Timestamp = \<lparr>Year = 2024, Month = 5, Day = 17, Hour = 9, Minute = 30, Second = 0,
                        Nanosecond = 0, Offset = 0\<rparr>\<rparr>
   \<and> matchHere ''CO2=700,HUM=-5.0,TMP=3.2 <<'' = None
   \<and> FindAllStringSubmatch ''>> CO2=700,HUM=-5.0,TMP=3.2 <<'' = []
   \<and> decode (\<lambda>x y. NaN) \<lparr>Year = 2024, Month = 5, Day = 17, Hour = 9, Minute = 30, Second = 0,
                            Nanosecond = 0, Offset = 0\<rparr> ''CO2=700,HUM=-5.0,TMP=3.2'' =
        NotAFrame ''Read unmatched string: CO2=700,HUM=-5.0,TMP=3.2''"
  using minus_in_temperature_not_in_humidity
    [where ?co2.0 = "''700''" and h = "''40.1''" and t = "''3.2''" and pow = "\<lambda>x y. NaN"
       and now = "\<lparr>Year = 2024, Month = 5, Day = 17, Hour = 9, Minute = 30, Second = 0,
                            Nanosecond = 0, Offset = 0\<rparr>" and pre = "''>> ''" and post = "'' <<''"
       and before = "[]" and later = "''5.0,TMP=3.2 <<''" and rest = "''5.0,TMP=3.2''"]
  by (simp add: co2Class_def humClass_def tmpClass_def Parse_eval FindAll_eval correctHumidity_def
        correctTemperature_def float64_const_eval round_eval round_float64_eq [of 1]
        round_float64_eq [of 2] round_float64_eq [of 5])

section \<open>A device for the examples\<close>

text \<open>
  The environment of a run in which the device sends the given lines, the context is
  never done, every read is at the same time, and every write succeeds.
\<close>

definition epoch :: time where
  "epoch = \<lparr>Year = 2024, Month = 5, Day = 17, Hour = 9, Minute = 30, Second = 0,
             Nanosecond = 0, Offset = 0\<rparr>"

definition received :: "string \<Rightarrow> event" where
  "received s = \<lparr>ev_done = False, ev_now = epoch, ev_text = s\<rparr>"

definition incoming :: "string list \<Rightarrow> env" where
  "incoming ls = \<lparr>pending = map received ls, failing = False, scanErr = False, writeOK = [],
                   effects = []\<rparr>"

lemmas env_eval =
  incoming_def received_def Scan_def Write_def Close_def logPrint_def CRLF_def
  awaitReply.simps prepareDevice_def

lemmas reader_eval = env_eval scanLoop.simps readerBody_def reader_def deferred_def


section \<open>The handshake on concrete replies\<close>

text \<open>
  C4 on concrete replies. Three \<open>OK\<close> replies: the three commands are written in
  order, each followed by CR LF, and \<open>prepareDevice\<close> returns nil. \<open>NG\<close> to the
  second command: the error names \<open>ID?\<close> and \<open>STA\<close> is never written. A reply
  that begins with neither prefix is skipped. A reply of fewer than two bytes, such as
  an empty line, is not skipped: \<open>t[:2]\<close> panics. And when the device sends nothing
  at all, the three commands are written and \<open>prepareDevice\<close> returns nil without
  one \<open>OK\<close>.
\<close>

theorem handshake_panics_on_short_reply:
  "prepareDevice (incoming [''OK'', ''OK'', ''OK'']) =
     (ReturnedNil,
      \<lparr>pending = [], failing = False, scanErr = False, writeOK = [],
       effects = [Logged ''Prepare device...:'',
                  Logged '' STP'', Written (''STP'' @ CRLF), Scanned ''OK'',
                  Logged '' ID?'', Written (''ID?'' @ CRLF), Scanned ''OK'',
                  Logged '' STA'', Written (''STA'' @ CRLF), Scanned ''OK'',
                  Logged '' OK.'']\<rparr>)
   \<and> prepareDevice (incoming [''OK'', ''NG'', ''OK'']) =
     (Failed (ErrCommandFailed ''ID?''),
      \<lparr>pending = [received ''OK''], failing = False, scanErr = False, writeOK = [],
       effects = [Logged ''Prepare device...:'',
                  Logged '' STP'', Written (''STP'' @ CRLF), Scanned ''OK'',
                  Logged '' ID?'', Written (''ID?'' @ CRLF), Scanned ''NG'']\<rparr>)
   \<and> prepareDevice (incoming [''OK'', ''ID=UD-CO2S'', ''OK'', ''OK'']) =
     (ReturnedNil,
      \<lparr>pending = [], failing = False, scanErr = False, writeOK = [],
       effects = [Logged ''Prepare device...:'',
                  Logged '' STP'', Written (''STP'' @ CRLF), Scanned ''OK'',
                  Logged '' ID?'', Written (''ID?'' @ CRLF), Scanned ''ID=UD-CO2S'', Scanned ''OK'',
                  Logged '' STA'', Written (''STA'' @ CRLF), Scanned ''OK'',
                  Logged '' OK.'']\<rparr>)
   \<and> prepareDevice (incoming [''OK'', [], ''OK'', ''OK'']) =
     (Panicked,
      \<lparr>pending = [received ''OK'', received ''OK''], failing = False, scanErr = False, writeOK = [],
       effects = [Logged ''Prepare device...:'',
                  Logged '' STP'', Written (''STP'' @ CRLF), Scanned ''OK'',
                  Logged '' ID?'', Written (''ID?'' @ CRLF), Scanned []]\<rparr>)
   \<and> fst (prepareDevice (incoming [''OK'', ''>'', ''OK'', ''OK''])) = Panicked
   \<and> prepareDevice (incoming []) =
     (ReturnedNil,
      \<lparr>pending = [], failing = False, scanErr = False, writeOK = [],
       effects = [Logged ''Prepare device...:'',
                  Logged '' STP'', Written (''STP'' @ CRLF), ScanFalse,
                  Logged '' ID?'', Written (''ID?'' @ CRLF), ScanFalse,
                  Logged '' STA'', Written (''STA'' @ CRLF), ScanFalse,
                  Logged '' OK.'']\<rparr>)"
  by (simp add: env_eval)

section \<open>Short unmatched lines\<close>

text \<open>
  C6 on concrete lines. \<open>OK STP\<close> ends the loop and \<open>hello world\<close> is logged as
  unmatched, but on the unmatched lines \<open>hello\<close> and the empty line \<open>text[:6]\<close>
  panics: the line is not logged, the loop does not go on to the next line, and the
  goroutine ends in the panic after the deferred \<open>STP\<close> and close.
\<close>

theorem short_line_panics:
  "decode pow now ''hello'' = SlicePanic \<and> decode pow now [] = SlicePanic
   \<and> decode pow now ''OK STP'' = StopAcknowledged
   \<and> decode pow now ''hello world'' = NotAFrame ''Read unmatched string: hello world''
   \<and> scanLoop pow None (incoming [''hello world'', ''hello'', ''CO2=412,HUM=45.3,TMP=23.1'']) =
       (ExitPanic, None,
        \<lparr>pending = [received ''CO2=412,HUM=45.3,TMP=23.1''], failing = False, scanErr = False,
         writeOK = [],
         effects = [Scanned ''hello world'', Logged ''Read unmatched string: hello world'',
                    Scanned ''hello'']\<rparr>)
   \<and> reader pow True (incoming [''OK'', ''OK'', ''OK'', []]) =
       (Panicked, None,
        \<lparr>pending = [], failing = False, scanErr = False, writeOK = [],
         effects = [Logged ''Prepare device...:'',
                    Logged '' STP'', Written (''STP'' @ CRLF), Scanned ''OK'',
                    Logged '' ID?'', Written (''ID?'' @ CRLF), Scanned ''OK'',
                    Logged '' STA'', Written (''STA'' @ CRLF), Scanned ''OK'',
                    Logged '' OK.'', Scanned [],
                    Written (''STP'' @ CRLF), Closed]\<rparr>)"
  by (simp add: decode_def FindAll_eval reader_eval)

section \<open>Leaving the reader\<close>

text \<open>
  \<open>quiet w w'\<close>: from \<open>w\<close> to \<open>w'\<close> the goroutine has only added effects, and
  has not closed the port.
\<close>

definition quiet :: "env \<Rightarrow> env \<Rightarrow> bool" where
  "quiet w w' = (\<exists>tr. effects w' = effects w @ tr \<and> Closed \<notin> set tr)"

lemma quiet_refl: "quiet w w"
  by (simp add: quiet_def)

lemma quiet_trans: "quiet w w1 \<Longrightarrow> quiet w1 w2 \<Longrightarrow> quiet w w2"
  by (auto simp: quiet_def)

lemma quiet_Write: "quiet w (snd (Write b w))"
  by (simp add: quiet_def Write_def split: list.split)

lemma quiet_Scan: "quiet w (snd (Scan w))"
  by (simp add: quiet_def Scan_def split: list.split)

lemma quiet_logPrint: "quiet w (logPrint msg w)"
  by (simp add: quiet_def logPrint_def)

lemma quiet_awaitReply: "quiet w (snd (awaitReply w))"
proof (induction w rule: awaitReply.induct)
  case (1 w)
  show ?case
  proof (cases "Scan w")
    case (Pair o' w')
    have q: "quiet w w'" using quiet_Scan [of w] Pair by simp
    show ?thesis
    proof (cases o')
      case None
      with Pair q show ?thesis by (subst awaitReply.simps) simp
    next
      case (Some e)
      have "quiet w' (snd (awaitReply w'))"
        if "\<not> ev_done e" "\<not> length (ev_text e) < 2" "take 2 (ev_text e) \<noteq> ''OK''"
          "take 2 (ev_text e) \<noteq> ''NG''"
        using 1 [OF Pair [symmetric] Some that] .
      with Pair Some q show ?thesis
        by (subst awaitReply.simps) (auto intro: quiet_trans)
    qed
  qed
qed

lemma quiet_sendCommands: "quiet w (snd (sendCommands cs w))"
proof (induction cs arbitrary: w)
  case Nil
  show ?case by (simp add: quiet_logPrint)
next
  case (Cons c cs)
  obtain ok w1 where W: "Write (c @ CRLF) (logPrint ('' '' @ c) w) = (ok, w1)"
    by (cases "Write (c @ CRLF) (logPrint ('' '' @ c) w)")
  have q1: "quiet w w1"
    using quiet_trans [OF quiet_logPrint [of w "'' '' @ c"]
        quiet_Write [of "logPrint ('' '' @ c) w" "c @ CRLF"]] W by simp
  obtain r w2 where A: "awaitReply w1 = (r, w2)" by (cases "awaitReply w1")
  have q2: "quiet w w2"
    using quiet_trans [OF q1 quiet_awaitReply [of w1]] A by simp
  have q3: "quiet w (snd (sendCommands cs w2))"
    using quiet_trans [OF q2 Cons.IH [of w2]] .
  show ?case
    using W A q1 q2 q3 by (cases ok; cases r) simp_all
qed

lemma quiet_prepareDevice: "quiet w (snd (prepareDevice w))"
  unfolding prepareDevice_def
  by (rule quiet_trans [OF quiet_logPrint quiet_sendCommands])

lemma quiet_scanLoop: "quiet w (snd (snd (scanLoop pow latest w)))"
proof (induction pow latest w rule: scanLoop.induct)
  case (1 pow latest w)
  show ?case
  proof (cases "Scan w")
    case (Pair o' w')
    have q: "quiet w w'" using quiet_Scan [of w] Pair by simp
    show ?thesis
    proof (cases o')
      case None
      with Pair q show ?thesis by (subst scanLoop.simps) simp
    next
      case (Some e)
      show ?thesis
      proof (cases "ev_done e")
        case True
        with Pair Some q show ?thesis by (subst scanLoop.simps) simp
      next
        case False
        show ?thesis
        proof (cases "decode pow (ev_now e) (ev_text e)")
          case (Reading d)
          from 1(1) [OF Pair [symmetric] Some False Reading]
          have "quiet w' (snd (snd (scanLoop pow (Some d) w')))" .
          with Pair Some False Reading q show ?thesis
            by (subst scanLoop.simps) (auto intro: quiet_trans)
        next
          case StopAcknowledged
          with Pair Some False q show ?thesis by (subst scanLoop.simps) simp
        next
          case (NotAFrame msg)
          from 1(2) [OF Pair [symmetric] Some False NotAFrame]
          have "quiet (logPrint msg w') (snd (snd (scanLoop pow latest (logPrint msg w'))))" .
          with quiet_logPrint [of w' msg] have "quiet w' (snd (snd (scanLoop pow latest (logPrint msg w'))))"
            by (rule quiet_trans)
          with Pair Some False NotAFrame q show ?thesis
            by (subst scanLoop.simps) (auto intro: quiet_trans)
        next
          case SlicePanic
          with Pair Some False q show ?thesis by (subst scanLoop.simps) simp
        qed
      qed
    qed
  qed
qed

lemma quiet_readerBody: "quiet w (snd (snd (readerBody pow w)))"
proof -
  obtain r w1 where P: "prepareDevice w = (r, w1)" by (cases "prepareDevice w")
  have q1: "quiet w w1" using quiet_prepareDevice [of w] P by simp
  obtain ex latest w2 where S: "scanLoop pow None w1 = (ex, latest, w2)"
    by (cases "scanLoop pow None w1")
  have q2: "quiet w w2" using quiet_trans [OF q1 quiet_scanLoop [of w1 pow None]] S by simp
  have q3: "quiet w (logPrint ''Reader stopped.'' w2)"
    using quiet_trans [OF q2 quiet_logPrint] .
  show ?thesis
    unfolding readerBody_def using P S q1 q2 q3
    by (cases r; cases ex) simp_all
qed

text \<open>
  C7, as the code has it. Once the port is open, every way out of the goroutine (return
  of nil, return of an error, panic) runs the deferred function: it writes \<open>STP\<close>,
  whether or not the write succeeds, and then closes the port; these are the last two
  effects, so nothing is read after that write, and the port has not been closed before.
  When the port cannot be opened nothing is written or closed. A line read when the
  context is done ends the scan loop at once: the line is not decoded and \<open>latest\<close>
  is unchanged.
\<close>

theorem reader_stops_then_closes:
  "(\<exists>tr b. effects (snd (snd (reader pow True w))) = effects w @ tr @ [b, Closed]
        \<and> Closed \<notin> set tr
        \<and> (b = Written (''STP'' @ CRLF) \<or> b = WriteFailed (''STP'' @ CRLF)))
   \<and> reader pow False w = (Failed ErrOpen, None, w)
   \<and> (pending w = e # es \<and> ev_done e \<longrightarrow>
        scanLoop pow latest w =
          (ExitBreak, latest, w\<lparr>pending := es, effects := effects w @ [Scanned (ev_text e)]\<rparr>))"
proof -
  obtain r l w1 where B: "readerBody pow w = (r, l, w1)" by (cases "readerBody pow w")
  from quiet_readerBody [of w pow] B obtain tr where
    tr: "effects w1 = effects w @ tr" "Closed \<notin> set tr"
    by (auto simp: quiet_def)
  have "effects (deferred w1) =
      effects w1 @ [case writeOK w1 of [] \<Rightarrow> Written (''STP'' @ CRLF)
                    | ok # oks \<Rightarrow> if ok then Written (''STP'' @ CRLF) else WriteFailed (''STP'' @ CRLF),
                    Closed]"
    by (simp add: deferred_def Close_def Write_def split: list.split)
  moreover have "(case writeOK w1 of [] \<Rightarrow> Written (''STP'' @ CRLF)
                    | ok # oks \<Rightarrow> if ok then Written (''STP'' @ CRLF) else WriteFailed (''STP'' @ CRLF))
       = Written (''STP'' @ CRLF)
     \<or> (case writeOK w1 of [] \<Rightarrow> Written (''STP'' @ CRLF)
                    | ok # oks \<Rightarrow> if ok then Written (''STP'' @ CRLF) else WriteFailed (''STP'' @ CRLF))
       = WriteFailed (''STP'' @ CRLF)"
    by (simp split: list.split)
  ultimately have 1: "\<exists>tr b. effects (snd (snd (reader pow True w))) = effects w @ tr @ [b, Closed]
        \<and> Closed \<notin> set tr
        \<and> (b = Written (''STP'' @ CRLF) \<or> b = WriteFailed (''STP'' @ CRLF))"
    using B tr unfolding reader_def by (intro exI [of _ tr]) auto
  have 2: "reader pow False w = (Failed ErrOpen, None, w)"
    by (simp add: reader_def)
  have 3: "pending w = e # es \<and> ev_done e \<longrightarrow>
        scanLoop pow latest w =
          (ExitBreak, latest, w\<lparr>pending := es, effects := effects w @ [Scanned (ev_text e)]\<rparr>)"
    by (auto simp: scanLoop_Cons)
  from 1 2 3 show ?thesis by (intro conjI)
qed


theorem reader_stops_then_closes_witness:
  "(\<exists>tr b. effects (snd (snd (reader (\<lambda>x y. NaN) True
         \<lparr>pending = [\<lparr>ev_done = True, ev_now = epoch, ev_text = ''OK''\<rparr>, received ''OK STP''],
          failing = False, scanErr = False, writeOK = [], effects = []\<rparr>))) = tr @ [b, Closed]
        \<and> Closed \<notin> set tr
        \<and> (b = Written (''STP'' @ CRLF) \<or> b = WriteFailed (''STP'' @ CRLF)))
   \<and> scanLoop (\<lambda>x y. NaN) None
         \<lparr>pending = [\<lparr>ev_done = True, ev_now = epoch, ev_text = ''OK''\<rparr>, received ''OK STP''],
          failing = False, scanErr = False, writeOK = [], effects = []\<rparr> =
       (ExitBreak, None,
        \<lparr>pending = [received ''OK STP''], failing = False, scanErr = False, writeOK = [],
         effects = [Scanned ''OK'']\<rparr>)"
  using reader_stops_then_closes
    [where pow = "\<lambda>x y. NaN"
       and w = "\<lparr>pending = [\<lparr>ev_done = True, ev_now = epoch, ev_text = ''OK''\<rparr>, received ''OK STP''],
          failing = False, scanErr = False, writeOK = [], effects = []\<rparr>"
       and e = "\<lparr>ev_done = True, ev_now = epoch, ev_text = ''OK''\<rparr>"
       and es = "[received ''OK STP'']" and latest = None]
  by simp


text \<open>
  The claim C7 fails on a run in which the context is done at the first line after the
  handshake and the device would then acknowledge the stop: the loop writes nothing and
  reads no further line; \<open>STP\<close> is written by the deferred function after the loop
  and the port is closed right after it, with the line \<open>OK STP\<close> still unread.
\<close>

theorem cancellation_does_not_await_acknowledgement:
  "\<forall>pow. reader pow True
      \<lparr>pending = [received ''OK'', received ''OK'', received ''OK'',
                  \<lparr>ev_done = True, ev_now = epoch, ev_text = ''CO2=412,HUM=45.3,TMP=23.1''\<rparr>,
                  received ''OK STP''],
       failing = False, scanErr = False, writeOK = [], effects = []\<rparr> =
     (ReturnedNil, None,
      \<lparr>pending = [received ''OK STP''], failing = False, scanErr = False, writeOK = [],
       effects = [Logged ''Prepare device...:'',
                  Logged '' STP'', Written (''STP'' @ CRLF), Scanned ''OK'',
                  Logged '' ID?'', Written (''ID?'' @ CRLF), Scanned ''OK'',
                  Logged '' STA'', Written (''STA'' @ CRLF), Scanned ''OK'',
                  Logged '' OK.'',
                  Scanned ''CO2=412,HUM=45.3,TMP=23.1'',
                  Logged ''Reader stopped.'',
                  Written (''STP'' @ CRLF), Closed]\<rparr>)"
  by (simp add: reader_eval)

section \<open>The response of the handler\<close>

lemma decimal_append: "decimal (xs @ ys) = foldl (\<lambda>n c. 10 * n + digitVal c) (decimal xs) ys"
  by (simp add: decimal_def)

lemma decimal_nines: "decimal (replicate n CHR ''9'') = 10 ^ n - 1"
proof (induction n)
  case 0
  show ?case by (simp add: decimal_def)
next
  case (Suc n)
  have "replicate (Suc n) CHR ''9'' = replicate n CHR ''9'' @ [CHR ''9'']"
    by (simp add: replicate_append_same)
  then have "decimal (replicate (Suc n) CHR ''9'') = 10 * decimal (replicate n CHR ''9'') + 9"
    by (simp add: decimal_append digitVal_def)
  also have "\<dots> = 10 * (10 ^ n - 1) + 9" by (simp add: Suc)
  also have "\<dots> = 10 ^ Suc n - 1"
  proof -
    have "(1::nat) \<le> 10 ^ n" by simp
    then show ?thesis by (simp add: algebra_simps)
  qed
  finally show ?case .
qed

lemma takeWhile_replicate_all: "P c \<Longrightarrow> takeWhile P (replicate n c) = replicate n c"
  by (induction n) simp_all

lemma dropWhile_replicate_all: "P c \<Longrightarrow> dropWhile P (replicate n c) = []"
  by (induction n) simp_all

lemma round_half_even_ge_floor: "\<lfloor>x\<rfloor> \<le> round_half_even x"
  by (simp add: round_half_even_def Let_def)

lemma round_float64_overflow:
  assumes "2 powi 1024 \<le> q"
  shows "round_float64 neg q = Inf neg"
proof -
  have q: "0 < q" using powi2_pos [of 1024] assms by (rule less_le_trans)
  define e where "e = floor_log2 q"
  have b: "2 powi e \<le> q" "q < 2 powi (e + 1)"
    using floor_log2_bounds [OF q] unfolding e_def by simp_all
  have e: "1024 \<le> e"
  proof (rule ccontr)
    assume "\<not> 1024 \<le> e"
    then have "e + 1 \<le> 1024" by simp
    then have "(2::rat) powi (e + 1) \<le> 2 powi 1024"
      by (rule power_int_increasing) simp
    with b(2) assms show False by simp
  qed
  define ulp :: rat where "ulp = 2 powi (e - 52)"
  have ulp: "0 < ulp" unfolding ulp_def by (rule powi2_pos)
  have "(2::rat) powi (52 + (e - 52)) = 2 powi 52 * 2 powi (e - 52)"
    by (rule power_int_add) simp
  then have split: "(2::rat) powi e = 2 powi 52 * ulp"
    unfolding ulp_def by simp
  have "2 powi 52 * ulp \<le> q" using b(1) split by simp
  then have "(2::rat) powi 52 \<le> q / ulp"
    using ulp by (simp add: pos_le_divide_eq)
  then have "(of_int (2 ^ 52) :: rat) \<le> q / ulp" by simp
  then have "(2::int) ^ 52 \<le> \<lfloor>q / ulp\<rfloor>" by (simp only: le_floor_iff)
  then have "(2::int) ^ 52 \<le> round_half_even (q / ulp)"
    using round_half_even_ge_floor [of "q / ulp"] by (rule order_trans)
  then have "(of_int (2 ^ 52) :: rat) \<le> of_int (round_half_even (q / ulp))"
    by (simp only: of_int_le_iff)
  then have "of_int (2 ^ 52) * ulp \<le> of_int (round_half_even (q / ulp)) * ulp"
    using ulp by (simp only: mult_le_cancel_right_pos)
  then have "(2::rat) powi e \<le> of_int (round_half_even (q / ulp)) * ulp"
    using split by simp
  moreover have "(2::rat) powi 1024 \<le> 2 powi e"
    using e by (rule power_int_increasing) simp
  ultimately have big: "2 powi 1024 \<le> of_int (round_half_even (q / ulp)) * ulp"
    by simp
  have m: "max e (- 1022) = e" using e by simp
  show ?thesis
    unfolding round_float64_def e_def [symmetric] Let_def m ulp_def [symmetric]
    using q big by simp
qed


lemma ParseFloat_nines:
  assumes "2 powi 1024 \<le> (of_nat (10 ^ n - 1) :: rat)"
  shows "ParseFloat (replicate n CHR ''9'') = (Inf False, Some ErrRange)"
proof -
  have d: "isDigit CHR ''9''" by (simp add: isDigit_def)
  have n: "n \<noteq> 0"
  proof
    assume "n = 0"
    with assms have "(2::rat) powi 1024 \<le> 0" by simp
    with powi2_pos [of 1024] show False by simp
  qed
  then have ne: "replicate n CHR ''9'' \<noteq> []" by simp
  have hd9: "hd (replicate n CHR ''9'') = CHR ''9''" using n by (simp add: hd_replicate)
  have r: "round_float64 False (of_nat (10 ^ n - 1)) = Inf False"
    using assms by (rule round_float64_overflow)
  show ?thesis
    unfolding ParseFloat_def
    using ne hd9 r d
    by (simp add: Let_def takeWhile_replicate_all [of isDigit "CHR ''9''", OF d]
          dropWhile_replicate_all [of isDigit "CHR ''9''", OF d] decimal_nines)
qed

lemma status_unsupported:
  assumes "Temperature d = Inf a"
  shows "status (handler (Some d)) = 500"
  using assms
  by (cases "marshalFloat (Humidity d)") (simp_all add: handler_def json_Marshal_def httpError_def)


text \<open>
  The claim C8 fails on the line \<^verbatim>\<open>CO2=1,HUM=1,TMP=\<close> followed by 310 nines: the
  pattern matches, \<open>ParseFloat\<close> returns \<open>+Inf\<close> with a range error that is
  discarded, the reading is stored with temperature \<open>+Inf\<close>, and the handler answers
  it with status 500, because \<open>json.Marshal\<close> does not encode an infinity.
\<close>

theorem stored_reading_answered_with_500:
  "\<forall>pow. \<exists>d w'.
      scanLoop pow None (incoming [''CO2=1,HUM=1,TMP='' @ replicate 310 CHR ''9'']) = (ExitScan, Some d, w')
      \<and> CO2 d = 1 \<and> Temperature d = Inf False \<and> status (handler (Some d)) = 500"
proof
  fix pow
  have t: "replicate 310 CHR ''9'' \<noteq> []" "list_all tmpClass (replicate 310 CHR ''9'')"
    by (simp_all add: list_all_iff tmpClass_def)
  have "matchHere (''CO2='' @ ''1'' @ '',HUM='' @ ''1'' @ '',TMP='' @ replicate 310 CHR ''9'' @ []) =
      Some ([''CO2='' @ ''1'' @ '',HUM='' @ ''1'' @ '',TMP='' @ replicate 310 CHR ''9'', ''1'', ''1'',
             replicate 310 CHR ''9''], [])"
    by (rule matchHere_frame) (simp_all add: t co2Class_def humClass_def)
  then have f: "FindAllStringSubmatch (''CO2=1,HUM=1,TMP='' @ replicate 310 CHR ''9'') =
      [''CO2=1,HUM=1,TMP='' @ replicate 310 CHR ''9'', ''1'', ''1'', replicate 310 CHR ''9''] # []"
    by (simp add: FindAllStringSubmatch_Cons FindAllStringSubmatch_Nil)
  have p: "fst (ParseFloat (replicate 310 CHR ''9'')) = Inf False"
    by (subst ParseFloat_nines) simp_all
  define d where "d = \<lparr>CO2 = 1, Humidity = correctHumidity pow (fst (ParseFloat ''1'')) (Inf False),
      Temperature = Inf False, Timestamp = epoch\<rparr>"
  have dec: "decode pow epoch (''CO2=1,HUM=1,TMP='' @ replicate 310 CHR ''9'') = Reading d"
    unfolding decode_Cons [OF f] d_def using p
    by (simp add: correctTemperature_special decimal_def digitVal_def)
  have "scanLoop pow None (incoming [''CO2=1,HUM=1,TMP='' @ replicate 310 CHR ''9'']) =
      (ExitScan, Some d,
       \<lparr>pending = [], failing = False, scanErr = False, writeOK = [],
        effects = [Scanned (''CO2=1,HUM=1,TMP='' @ replicate 310 CHR ''9''), ScanFalse]\<rparr>)"
    using dec by (simp add: scanLoop.simps incoming_def received_def Scan_def)
  moreover have "CO2 d = 1" "Temperature d = Inf False" by (simp_all add: d_def)
  moreover have "status (handler (Some d)) = 500"
    by (rule status_unsupported [of d False]) (simp add: d_def)
  ultimately show "\<exists>d w'.
      scanLoop pow None (incoming [''CO2=1,HUM=1,TMP='' @ replicate 310 CHR ''9'']) = (ExitScan, Some d, w')
      \<and> CO2 d = 1 \<and> Temperature d = Inf False \<and> status (handler (Some d)) = 500"
    by blast
qed


text \<open>
  C8, as the code has it. With no reading stored the response is status 503 with the
  body \<open>no data\<close> and a newline. A stored reading whose humidity and temperature are
  finite is answered with status 200 and the JSON object of its four fields, the
  timestamp formatted. A stored reading whose humidity or temperature is an infinity or
  NaN is answered with status 500 and the text of the encoder's error.
\<close>

theorem handler_responses:
  "handler None =
     \<lparr>status = 503, contentType = ''text/plain; charset=utf-8'',
      content = Text (''no data'' @ [CHR 0x0A])\<rparr>
   \<and> handler (Some \<lparr>CO2 = c, Humidity = Fin a x, Temperature = Fin b y, Timestamp = ts\<rparr>) =
     \<lparr>status = 200, contentType = ''application/json'',
      content = Json (JObject [(''co2'', JInt c), (''humidity'', JNumber (Fin a x)),
                               (''temperature'', JNumber (Fin b y)),
                               (''timestamp'', JString (Format ts))])\<rparr>
   \<and> handler (Some \<lparr>CO2 = c, Humidity = Inf a, Temperature = t, Timestamp = ts\<rparr>) =
     \<lparr>status = 500, contentType = ''text/plain; charset=utf-8'',
      content = Text (''json: unsupported value: '' @ (if a then ''-Inf'' else ''+Inf'') @ [CHR 0x0A])\<rparr>
   \<and> handler (Some \<lparr>CO2 = c, Humidity = NaN, Temperature = t, Timestamp = ts\<rparr>) =
     \<lparr>status = 500, contentType = ''text/plain; charset=utf-8'',
      content = Text (''json: unsupported value: NaN'' @ [CHR 0x0A])\<rparr>
   \<and> handler (Some \<lparr>CO2 = c, Humidity = Fin a x, Temperature = Inf b, Timestamp = ts\<rparr>) =
     \<lparr>status = 500, contentType = ''text/plain; charset=utf-8'',
      content = Text (''json: unsupported value: '' @ (if b then ''-Inf'' else ''+Inf'') @ [CHR 0x0A])\<rparr>
   \<and> handler (Some \<lparr>CO2 = c, Humidity = Fin a x, Temperature = NaN, Timestamp = ts\<rparr>) =
     \<lparr>status = 500, contentType = ''text/plain; charset=utf-8'',
      content = Text (''json: unsupported value: NaN'' @ [CHR 0x0A])\<rparr>"
  by (simp add: handler_def json_Marshal_def httpError_def MarshalJSON_def)

end
